theory Spec2Isabelle
  imports Complex_Main "HOL-Library.AList"
begin

section \<open>JavaScript values\<close>

text \<open>
  The engine handles untyped form values (\<^verbatim>\<open>unknown\<close> in the TypeScript sources).
  A number is an IEEE double: only its comparisons are used by the code, so a finite double
  is modelled by the rational it denotes (both zeros are the rational 0, which every
  comparison used here treats alike), next to NaN and the two infinities.
\<close>

datatype jsnum = NaN | PosInf | NegInf | Fin rat

text \<open>
  An object is the list of its own properties, in insertion order; an array the list of its
  elements. A built-in function (a method found on a prototype) is known by its name.
\<close>

datatype jsval =
    JUndefined
  | JNull
  | JBool bool
  | JNum jsnum
  | JStr string
  | JArr "jsval list"
  | JObj "(string \<times> jsval) list"
  | JFunction string

text \<open>The relational operators on numbers: every comparison with NaN is false.\<close>

fun num_lt :: "jsnum \<Rightarrow> jsnum \<Rightarrow> bool" where
  "num_lt NaN _ = False"
| "num_lt _ NaN = False"
| "num_lt (Fin a) (Fin b) = (a < b)"
| "num_lt NegInf NegInf = False"
| "num_lt NegInf _ = True"
| "num_lt _ NegInf = False"
| "num_lt PosInf _ = False"
| "num_lt _ PosInf = True"

fun num_eq :: "jsnum \<Rightarrow> jsnum \<Rightarrow> bool" where
  "num_eq NaN _ = False"
| "num_eq _ NaN = False"
| "num_eq a b = (a = b)"

definition num_gt :: "jsnum \<Rightarrow> jsnum \<Rightarrow> bool" where
  "num_gt a b = num_lt b a"

definition num_lte :: "jsnum \<Rightarrow> jsnum \<Rightarrow> bool" where
  "num_lte a b = (num_lt a b \<or> num_eq a b)"

definition num_gte :: "jsnum \<Rightarrow> jsnum \<Rightarrow> bool" where
  "num_gte a b = (num_lt b a \<or> num_eq a b)"

text \<open>
  \<^verbatim>\<open>a === b\<close>. Primitives compare by value (NaN differs from itself); two objects or
  arrays are equal only when they are the same heap object, which the structure of a value
  does not determine: the identity test \<open>sameRef\<close> is a parameter of the model.
\<close>

fun strictEq :: "(jsval \<Rightarrow> jsval \<Rightarrow> bool) \<Rightarrow> jsval \<Rightarrow> jsval \<Rightarrow> bool" where
  "strictEq sameRef JUndefined JUndefined = True"
| "strictEq sameRef JNull JNull = True"
| "strictEq sameRef (JBool a) (JBool b) = (a = b)"
| "strictEq sameRef (JNum a) (JNum b) = num_eq a b"
| "strictEq sameRef (JStr a) (JStr b) = (a = b)"
| "strictEq sameRef (JArr a) (JArr b) = sameRef (JArr a) (JArr b)"
| "strictEq sameRef (JObj a) (JObj b) = sameRef (JObj a) (JObj b)"
| "strictEq sameRef (JFunction a) (JFunction b) = sameRef (JFunction a) (JFunction b)"
| "strictEq sameRef _ _ = False"

text \<open>
  SameValueZero, the comparison of \<^verbatim>\<open>Array.prototype.includes\<close>: strict equality, except
  that NaN equals NaN.
\<close>

fun sameValueZero :: "(jsval \<Rightarrow> jsval \<Rightarrow> bool) \<Rightarrow> jsval \<Rightarrow> jsval \<Rightarrow> bool" where
  "sameValueZero sameRef (JNum NaN) (JNum NaN) = True"
| "sameValueZero sameRef a b = strictEq sameRef a b"

definition arrayIncludes :: "(jsval \<Rightarrow> jsval \<Rightarrow> bool) \<Rightarrow> jsval list \<Rightarrow> jsval \<Rightarrow> bool" where
  "arrayIncludes sameRef xs v = list_ex (\<lambda>x. sameValueZero sameRef x v) xs"

text \<open>\<^verbatim>\<open>typeof v === "number"\<close>\<close>

fun isNumber :: "jsval \<Rightarrow> bool" where
  "isNumber (JNum _) = True"
| "isNumber _ = False"

text \<open>\<^verbatim>\<open>v === undefined || v === null\<close>, the test of the \<^verbatim>\<open>??\<close> operator.\<close>

fun isNullish :: "jsval \<Rightarrow> bool" where
  "isNullish JUndefined = True"
| "isNullish JNull = True"
| "isNullish _ = False"

text \<open>
  \<^verbatim>\<open>obj[key] = v\<close> on an ordinary object (one made by \<^verbatim>\<open>{}\<close>). The key
  \<^verbatim>\<open>__proto__\<close> is the accessor inherited from \<^verbatim>\<open>Object.prototype\<close>: assigning to it
  creates no own property (it replaces the prototype when \<open>v\<close> is an object or
  \<^verbatim>\<open>null\<close>, and does nothing otherwise; the prototype is not part of an object value
  here). Every other key becomes an own property, or is overwritten in place when it
  exists.
\<close>

definition objSet :: "string \<Rightarrow> jsval \<Rightarrow> (string \<times> jsval) list \<Rightarrow> (string \<times> jsval) list" where
  "objSet key v obj = (if key = ''__proto__'' then obj else AList.update key v obj)"

text \<open>Decimal rendering of an array index, \<^verbatim>\<open>String(i)\<close>.\<close>

definition digitChar :: "nat \<Rightarrow> char" where
  "digitChar d = char_of (48 + d)"

fun stringOfNat :: "nat \<Rightarrow> string" where
  "stringOfNat n = (if n < 10 then [digitChar n] else stringOfNat (n div 10) @ [digitChar (n mod 10)])"

text \<open>\<^verbatim>\<open>path.split(".")\<close>: the empty string splits into one empty segment.\<close>

fun splitDot :: "string \<Rightarrow> string list" where
  "splitDot [] = [[]]"
| "splitDot (c # cs) =
     (if c = CHR ''.'' then [] # splitDot cs
      else (case splitDot cs of [] \<Rightarrow> [[c]] | seg # segs \<Rightarrow> (c # seg) # segs))"

section \<open>Schema model (types/schema.ts)\<close>

record conditionConfig =
  cond_when :: string
  cond_operator :: string
  cond_value :: jsval

text \<open>
  The attributes of a \<^verbatim>\<open>FieldDefinition\<close> that the modelled functions read. An optional
  property is an \<open>option\<close>; \<open>defaultValue\<close> is a value, with \<open>JUndefined\<close> for an absent one
  (the code tests \<^verbatim>\<open>!== undefined\<close>). \<open>staticOptions\<close> is the property \<^verbatim>\<open>options\<close>
  (label and value of each entry).
\<close>

record fieldAttrs =
  name :: string
  ftype :: string
  defaultValue :: jsval
  dataSourceKey :: "string option"
  dependsOn :: "string list option"
  condition :: "conditionConfig option"
  itemType :: "string option"
  minItems :: "int option"
  maxItems :: "int option"
  staticOptions :: "(string \<times> jsval) list option"

text \<open>A field definition: its attributes, \<^verbatim>\<open>fields\<close> and \<^verbatim>\<open>itemFields\<close>.\<close>

datatype fieldDef =
  FieldDef (attrs: fieldAttrs) (fields: "fieldDef list option") (itemFields: "fieldDef list option")

record autoFormSchema =
  schema_fields :: "fieldDef list option"

section \<open>Array resolution (ArrayFieldInternal)\<close>

definition getDefaultForType :: "string option \<Rightarrow> jsval" where
  "getDefaultForType t =
     (if t = Some ''number'' then JNum (Fin 0)
      else if t = Some ''checkbox'' \<or> t = Some ''switch'' then JBool False
      else if t = Some ''multiselect'' then JArr []
      else JStr '''')"

text \<open>
  The loop of \<^verbatim>\<open>handleAppend\<close> that builds \<^verbatim>\<open>defaultItem\<close>: one property assignment
  per item field whose \<^verbatim>\<open>defaultValue\<close> is not \<^verbatim>\<open>undefined\<close>, on an object that
  starts as \<^verbatim>\<open>{}\<close>.
\<close>

fun defaultItem :: "fieldDef list \<Rightarrow> (string \<times> jsval) list \<Rightarrow> (string \<times> jsval) list" where
  "defaultItem [] obj = obj"
| "defaultItem (itemField # rest) obj =
     defaultItem rest
       (if defaultValue (attrs itemField) \<noteq> JUndefined
        then objSet (name (attrs itemField)) (defaultValue (attrs itemField)) obj
        else obj)"

text \<open>
  \<^verbatim>\<open>append\<close> and \<^verbatim>\<open>remove\<close> come from the form controller (\<^verbatim>\<open>useFieldArray\<close> of
  react-hook-form), an external collaborator: they are parameters, taking the current item
  list and returning the new one or an error. \<open>items\<close> is the array value the controller
  holds for the field; its \<^verbatim>\<open>fields\<close> array has one entry per item, so
  \<^verbatim>\<open>fields.length\<close> is the length of \<open>items\<close>.
\<close>

definition handleAppend ::
  "(jsval list \<Rightarrow> jsval \<Rightarrow> 'e + jsval list) \<Rightarrow> fieldDef \<Rightarrow> jsval list \<Rightarrow> jsval \<Rightarrow> 'e + jsval list" where
  "handleAppend appendFn field items v =
     (if (case maxItems (attrs field) of None \<Rightarrow> False | Some m \<Rightarrow> int (length items) \<ge> m)
      then Inr items
      else
        (case itemFields field of
           Some ifs \<Rightarrow>
             if itemType (attrs field) = Some ''object''
             then appendFn items (if isNullish v then JObj (defaultItem ifs []) else v)
             else appendFn items (if isNullish v then getDefaultForType (itemType (attrs field)) else v)
         | None \<Rightarrow>
             appendFn items (if isNullish v then getDefaultForType (itemType (attrs field)) else v)))"

definition handleRemove ::
  "(jsval list \<Rightarrow> nat \<Rightarrow> 'e + jsval list) \<Rightarrow> fieldDef \<Rightarrow> jsval list \<Rightarrow> nat \<Rightarrow> 'e + jsval list" where
  "handleRemove removeFn field items index =
     (if (case minItems (attrs field) of None \<Rightarrow> False | Some m \<Rightarrow> int (length items) \<le> m)
      then Inr items
      else removeFn items index)"

text \<open>Example data: a field with every optional property absent.\<close>

definition plainField :: "string \<Rightarrow> string \<Rightarrow> fieldAttrs" where
  "plainField n t =
     \<lparr> name = n, ftype = t, defaultValue = JUndefined, dataSourceKey = None, dependsOn = None,
       condition = None, itemType = None, minItems = None, maxItems = None,
       staticOptions = None \<rparr>"

text \<open>
  The controller of react-hook-form. Its \<^verbatim>\<open>append(value)\<close> takes one item or an array of
  items: the payload is \<^verbatim>\<open>Array.isArray(value) ? value : [value]\<close>, added at the end, so
  an array argument is spread and the empty array adds nothing. Its \<^verbatim>\<open>remove(index)\<close>
  drops the item at the index.
\<close>

definition listAppend :: "jsval list \<Rightarrow> jsval \<Rightarrow> unit + jsval list" where
  "listAppend xs v = Inr (xs @ (case v of JArr vs \<Rightarrow> vs | _ \<Rightarrow> [v]))"

definition listRemove :: "jsval list \<Rightarrow> nat \<Rightarrow> unit + jsval list" where
  "listRemove xs i = Inr (take i xs @ drop (Suc i) xs)"

section \<open>Condition evaluator (useFieldRenderer.ts)\<close>

text \<open>
  The own properties of an array are its indices, in canonical decimal form, and
  \<^verbatim>\<open>length\<close>; those of an object are its keys.
\<close>

definition arrayGet :: "jsval list \<Rightarrow> string \<Rightarrow> jsval option" where
  "arrayGet xs key =
     (if key = ''length'' then Some (JNum (Fin (of_nat (length xs))))
      else map_option (\<lambda>i. xs ! i) (find (\<lambda>i. stringOfNat i = key) [0..<length xs]))"

text \<open>
  The reducer of \<^verbatim>\<open>getNestedValue\<close>: \<^verbatim>\<open>acc[key]\<close> when \<^verbatim>\<open>acc\<close> is a non-null object
  (\<^verbatim>\<open>typeof acc === "object"\<close>, which a function is not) and \<^verbatim>\<open>key in acc\<close>,
  \<^verbatim>\<open>undefined\<close> otherwise. \<^verbatim>\<open>key in acc\<close> holds for an own property and for one
  inherited through the prototype chain (\<^verbatim>\<open>constructor\<close>, \<^verbatim>\<open>toString\<close>, the array
  methods); an own property shadows an inherited one. Which properties a value inherits
  is fixed by the JavaScript engine, not by this code: the lookup \<open>inherited\<close> is a
  parameter, giving the value of the inherited property \<open>key\<close> of \<open>acc\<close> when there is one.
\<close>

fun propGet :: "(jsval \<Rightarrow> string \<Rightarrow> jsval option) \<Rightarrow> jsval \<Rightarrow> string \<Rightarrow> jsval" where
  "propGet inherited (JObj kvs) key =
     (case map_of kvs key of
        Some v \<Rightarrow> v
      | None \<Rightarrow> (case inherited (JObj kvs) key of Some v \<Rightarrow> v | None \<Rightarrow> JUndefined))"
| "propGet inherited (JArr xs) key =
     (case arrayGet xs key of
        Some v \<Rightarrow> v
      | None \<Rightarrow> (case inherited (JArr xs) key of Some v \<Rightarrow> v | None \<Rightarrow> JUndefined))"
| "propGet inherited _ key = JUndefined"

definition getNestedValue :: "(jsval \<Rightarrow> string \<Rightarrow> jsval option) \<Rightarrow> jsval \<Rightarrow> string \<Rightarrow> jsval" where
  "getNestedValue inherited obj path = foldl (propGet inherited) obj (splitDot path)"

text \<open>
  \<^verbatim>\<open>typeof a === "number" && typeof b === "number" && a OP b\<close> for the four relational
  operators: the comparison is reached for two numbers only.
\<close>

fun numCompare :: "(jsnum \<Rightarrow> jsnum \<Rightarrow> bool) \<Rightarrow> jsval \<Rightarrow> jsval \<Rightarrow> bool" where
  "numCompare rel (JNum a) (JNum b) = rel a b"
| "numCompare rel _ _ = False"

definition evaluateCondition ::
  "(jsval \<Rightarrow> string \<Rightarrow> jsval option) \<Rightarrow> (jsval \<Rightarrow> jsval \<Rightarrow> bool)
     \<Rightarrow> conditionConfig option \<Rightarrow> jsval \<Rightarrow> bool" where
  "evaluateCondition inherited sameRef cond formValues =
     (case cond of
        None \<Rightarrow> True
      | Some c \<Rightarrow>
          (let fieldValue = getNestedValue inherited formValues (cond_when c);
               v = cond_value c;
               operator = cond_operator c
           in if operator = ''eq'' then strictEq sameRef fieldValue v
              else if operator = ''neq'' then \<not> strictEq sameRef fieldValue v
              else if operator = ''gt'' then numCompare num_gt fieldValue v
              else if operator = ''gte'' then numCompare num_gte fieldValue v
              else if operator = ''lt'' then numCompare num_lt fieldValue v
              else if operator = ''lte'' then numCompare num_lte fieldValue v
              else if operator = ''in'' then
                (case v of JArr xs \<Rightarrow> arrayIncludes sameRef xs fieldValue | _ \<Rightarrow> False)
              else if operator = ''notIn'' then
                (case v of JArr xs \<Rightarrow> \<not> arrayIncludes sameRef xs fieldValue | _ \<Rightarrow> False)
              else if operator = ''exists'' then
                fieldValue \<noteq> JUndefined \<and> fieldValue \<noteq> JNull \<and> fieldValue \<noteq> JStr ''''
              else if operator = ''notExists'' then
                fieldValue = JUndefined \<or> fieldValue = JNull \<or> fieldValue = JStr ''''
              else True))"

text \<open>
  Identity test for the examples: no object or array of the condition is the same heap
  object as a form value.
\<close>

definition noSharedRefs :: "jsval \<Rightarrow> jsval \<Rightarrow> bool" where
  "noSharedRefs a b = False"

text \<open>
  The inherited properties for the examples, as ECMAScript 2023 has them: an ordinary
  object inherits the string-keyed properties of \<^verbatim>\<open>Object.prototype\<close> (section 20.1.3),
  an array those of \<^verbatim>\<open>Array.prototype\<close> (section 23.1.3) and then those of
  \<^verbatim>\<open>Object.prototype\<close>; \<^verbatim>\<open>__proto__\<close> gives the prototype object itself.
\<close>

definition objectPrototype :: jsval where
  "objectPrototype =
     JObj (map (\<lambda>k. (k, JFunction (''Object.prototype.'' @ k)))
             [''constructor'', ''hasOwnProperty'', ''isPrototypeOf'', ''propertyIsEnumerable'',
              ''toLocaleString'', ''toString'', ''valueOf'', ''__defineGetter__'',
              ''__defineSetter__'', ''__lookupGetter__'', ''__lookupSetter__'']
           @ [(''__proto__'', JNull)])"

definition arrayPrototype :: jsval where
  "arrayPrototype =
     JObj ((''length'', JNum (Fin 0))
           # map (\<lambda>k. (k, JFunction (''Array.prototype.'' @ k)))
               [''at'', ''concat'', ''constructor'', ''copyWithin'', ''entries'', ''every'',
                ''fill'', ''filter'', ''find'', ''findIndex'', ''findLast'', ''findLastIndex'',
                ''flat'', ''flatMap'', ''forEach'', ''includes'', ''indexOf'', ''join'', ''keys'',
                ''lastIndexOf'', ''map'', ''pop'', ''push'', ''reduce'', ''reduceRight'',
                ''reverse'', ''shift'', ''slice'', ''some'', ''sort'', ''splice'',
                ''toLocaleString'', ''toReversed'', ''toSorted'', ''toSpliced'', ''toString'',
                ''unshift'', ''values'', ''with''])"

fun ownProperties :: "jsval \<Rightarrow> (string \<times> jsval) list" where
  "ownProperties (JObj kvs) = kvs"
| "ownProperties _ = []"

fun standardInherited :: "jsval \<Rightarrow> string \<Rightarrow> jsval option" where
  "standardInherited (JObj kvs) key =
     (if key = ''__proto__'' then Some objectPrototype
      else map_of (ownProperties objectPrototype) key)"
| "standardInherited (JArr xs) key =
     (if key = ''__proto__'' then Some arrayPrototype
      else (case map_of (ownProperties arrayPrototype) key of
              Some v \<Rightarrow> Some v
            | None \<Rightarrow> map_of (ownProperties objectPrototype) key))"
| "standardInherited _ key = None"

section \<open>Schema parser (schema/parser.ts)\<close>

definition VALID_FIELD_TYPES :: "string list" where
  "VALID_FIELD_TYPES =
     [''text'', ''email'', ''password'', ''number'', ''textarea'', ''select'', ''multiselect'',
      ''autocomplete'', ''checkbox'', ''radio'', ''switch'', ''date'', ''datetime'', ''time'',
      ''file'', ''object'', ''array'', ''hidden'']"

text \<open>
  \<^verbatim>\<open>SchemaValidationError\<close>: the message given to the constructor and the path. A
  \<^verbatim>\<open>throw\<close> is the left injection of the result.
\<close>

datatype schemaValidationError = SchemaValidationError (err_message: string) (err_path: string)

fun joinWith :: "string \<Rightarrow> string list \<Rightarrow> string" where
  "joinWith sep [] = []"
| "joinWith sep [x] = x"
| "joinWith sep (x # y # ys) = x @ sep @ joinWith sep (y # ys)"

text \<open>
  The checks of \<^verbatim>\<open>validateField\<close> after the two recursive blocks: the options of a choice
  field, the condition, and \<^verbatim>\<open>dependsOn\<close> (an array by its type, so that check cannot
  fail here). \<^verbatim>\<open>!field.options\<close> holds for an absent property only (an empty array is
  truthy); \<^verbatim>\<open>!field.dataSourceKey\<close> also for the empty string.
\<close>

definition validateTail :: "fieldAttrs \<Rightarrow> string \<Rightarrow> schemaValidationError + unit" where
  "validateTail a path =
     (if ftype a \<in> set [''select'', ''multiselect'', ''radio'']
         \<and> staticOptions a = None
         \<and> (dataSourceKey a = None \<or> dataSourceKey a = Some '''')
      then Inl (SchemaValidationError
                  (''Field type \"'' @ ftype a @ ''\" must have either \"options\" array or \"dataSourceKey\"'')
                  (path @ ''.'' @ name a))
      else
        (case condition a of
           None \<Rightarrow> Inr ()
         | Some c \<Rightarrow>
             if cond_when c = '''' then
               Inl (SchemaValidationError ''Condition must have a valid \"when\" field name''
                      (path @ ''.'' @ name a @ ''.condition''))
             else if cond_operator c = '''' then
               Inl (SchemaValidationError ''Condition must have an \"operator\"''
                      (path @ ''.'' @ name a @ ''.condition''))
             else Inr ()))"

fun validateField :: "fieldDef \<Rightarrow> string \<Rightarrow> schemaValidationError + unit"
  and validateFields :: "fieldDef list \<Rightarrow> string \<Rightarrow> schemaValidationError + unit" where
  "validateField (FieldDef a flds iflds) path =
     (if name a = '''' then
        Inl (SchemaValidationError ''Field must have a valid \"name\" string'' path)
      else if ftype a \<notin> set VALID_FIELD_TYPES then
        Inl (SchemaValidationError
               (''Field must have a valid \"type\". Got \"'' @ ftype a @ ''\", expected one of: ''
                  @ joinWith '', '' VALID_FIELD_TYPES)
               (path @ ''.'' @ name a))
      else
        (case (if ftype a = ''object'' then
                 (case flds of
                    None \<Rightarrow>
                      Inl (SchemaValidationError
                             ''Object type field must have a non-empty \"fields\" array''
                             (path @ ''.'' @ name a))
                  | Some fs \<Rightarrow>
                      if fs = [] then
                        Inl (SchemaValidationError
                               ''Object type field must have a non-empty \"fields\" array''
                               (path @ ''.'' @ name a))
                      else validateFields fs (path @ ''.'' @ name a))
               else Inr ()) of
           Inl e \<Rightarrow> Inl e
         | Inr _ \<Rightarrow>
            (case (if ftype a = ''array'' then
                     (if itemType a = None \<or> itemType a = Some '''' then
                        Inl (SchemaValidationError
                               ''Array type field must have \"itemType\" defined''
                               (path @ ''.'' @ name a))
                      else if itemType a = Some ''object'' then
                        (case iflds of
                           None \<Rightarrow>
                             Inl (SchemaValidationError
                                    ''Array field with itemType \"object\" must have a non-empty \"itemFields\" array''
                                    (path @ ''.'' @ name a))
                         | Some ifs \<Rightarrow>
                             if ifs = [] then
                               Inl (SchemaValidationError
                                      ''Array field with itemType \"object\" must have a non-empty \"itemFields\" array''
                                      (path @ ''.'' @ name a))
                             else validateFields ifs (path @ ''.'' @ name a @ ''[]''))
                      else Inr ())
                   else Inr ()) of
               Inl e \<Rightarrow> Inl e
             | Inr _ \<Rightarrow> validateTail a path)))"
| "validateFields [] path = Inr ()"
| "validateFields (field # rest) path =
     (case validateField field path of
        Inl e \<Rightarrow> Inl e
      | Inr _ \<Rightarrow> validateFields rest path)"

text \<open>The duplicate-name loop of \<^verbatim>\<open>parseSchema\<close> over the root fields.\<close>

fun checkRootNames :: "fieldDef list \<Rightarrow> string set \<Rightarrow> schemaValidationError + unit" where
  "checkRootNames [] rootNames = Inr ()"
| "checkRootNames (field # rest) rootNames =
     (if name (attrs field) \<in> rootNames then
        Inl (SchemaValidationError
               (''Duplicate field name \"'' @ name (attrs field) @ ''\" at root level'') ''root'')
      else checkRootNames rest (insert (name (attrs field)) rootNames))"

text \<open>
  \<^verbatim>\<open>parseSchema\<close>. The result on success is the schema itself; the introspection fields of
  \<^verbatim>\<open>ParsedSchema\<close> (paths and flags) are computed from it without further checks and are
  not part of the model.
\<close>

definition parseSchema :: "autoFormSchema \<Rightarrow> schemaValidationError + autoFormSchema" where
  "parseSchema schema =
     (case schema_fields schema of
        None \<Rightarrow> Inl (SchemaValidationError ''Schema must have a \"fields\" array'' ''root'')
      | Some fs \<Rightarrow>
          if fs = [] then
            Inl (SchemaValidationError ''Schema must have at least one field'' ''root.fields'')
          else
            (case validateFields fs ''root'' of
               Inl e \<Rightarrow> Inl e
             | Inr _ \<Rightarrow>
                 (case checkRootNames fs {} of
                    Inl e \<Rightarrow> Inl e
                  | Inr _ \<Rightarrow> Inr schema)))"

text \<open>
  \<^verbatim>\<open>processFields\<close> of \<^verbatim>\<open>getDefaultValues\<close>: the loop over the fields, writing into
  \<^verbatim>\<open>target\<close>, an object that starts as \<^verbatim>\<open>{}\<close>.
  \<^verbatim>\<open>Object.keys(nestedDefaults).length > 0\<close> holds when the nested object has an own
  property.
\<close>

fun processFields :: "fieldDef list \<Rightarrow> (string \<times> jsval) list \<Rightarrow> (string \<times> jsval) list" where
  "processFields [] target = target"
| "processFields (FieldDef a flds iflds # rest) target =
     processFields rest
       (if defaultValue a \<noteq> JUndefined then objSet (name a) (defaultValue a) target
        else if ftype a = ''object'' \<and> flds \<noteq> None then
          (case flds of
             None \<Rightarrow> target
           | Some fs \<Rightarrow>
               (let nestedDefaults = processFields fs []
                in if nestedDefaults \<noteq> [] then objSet (name a) (JObj nestedDefaults) target
                   else target))
        else if ftype a = ''array'' then objSet (name a) (JArr []) target
        else if ftype a = ''checkbox'' \<or> ftype a = ''switch'' then
          objSet (name a) (JBool False) target
        else target)"

text \<open>
  \<^verbatim>\<open>getDefaultValues\<close>; iterating over a missing \<^verbatim>\<open>fields\<close> property raises a
  \<^verbatim>\<open>TypeError\<close>, the result \<open>None\<close>.
\<close>

definition getDefaultValues :: "autoFormSchema \<Rightarrow> (string \<times> jsval) list option" where
  "getDefaultValues schema =
     (case schema_fields schema of
        None \<Rightarrow> None
      | Some fs \<Rightarrow> Some (processFields fs []))"

section \<open>Notions of the specification\<close>







text \<open>
  A field contributes a default when it is not named \<^verbatim>\<open>__proto__\<close> and has a
  \<open>defaultValue\<close>, is an array, a checkbox or a switch, or is an object with a
  contributing descendant.
\<close>

fun contributes :: "fieldDef \<Rightarrow> bool" where
  "contributes (FieldDef a flds iflds) =
     (name a \<noteq> ''__proto__''
      \<and> (defaultValue a \<noteq> JUndefined
          \<or> ftype a = ''array''
          \<or> ftype a = ''checkbox'' \<or> ftype a = ''switch''
          \<or> (ftype a = ''object''
              \<and> (case flds of None \<Rightarrow> False | Some fs \<Rightarrow> list_ex contributes fs))))"

text \<open>
  The initial value a field is to have, in the words of the specification: the explicit
  default; else the empty array for an array; else false for a checkbox or a switch; else,
  for an object with a contributing descendant, the object of the nested defaults; else no
  entry at all.
\<close>

definition expectedDefault :: "fieldDef \<Rightarrow> jsval option" where
  "expectedDefault f =
     (if defaultValue (attrs f) \<noteq> JUndefined then Some (defaultValue (attrs f))
      else if ftype (attrs f) = ''array'' then Some (JArr [])
      else if ftype (attrs f) = ''checkbox'' \<or> ftype (attrs f) = ''switch'' then Some (JBool False)
      else if ftype (attrs f) = ''object'' then
        (case fieldDef.fields f of
           None \<Rightarrow> None
         | Some fs \<Rightarrow> if list_ex contributes fs then Some (JObj (processFields fs [])) else None)
      else None)"

text \<open>
  The entry a level of sibling fields is to have under the key \<open>n\<close>: the expected default
  of the last field named \<open>n\<close> that has one; nothing under \<^verbatim>\<open>__proto__\<close>.
\<close>

definition lastContribution :: "string \<Rightarrow> fieldDef list \<Rightarrow> jsval option" where
  "lastContribution n fs =
     (if n = ''__proto__'' then None
      else (case filter (\<lambda>f. name (attrs f) = n \<and> expectedDefault f \<noteq> None) fs of
              [] \<Rightarrow> None
            | c # cs \<Rightarrow> expectedDefault (last (c # cs))))"

section \<open>Data source engine (hooks/useDataSource.ts)\<close>

text \<open>
  The hook runs on one thread: a synchronous turn (a call of \<^verbatim>\<open>fetchData\<close> up to its first
  \<^verbatim>\<open>await\<close>, a timer callback, the continuations of a settled promise) is one step of the
  model and takes the whole state to the next. The module-level maps \<^verbatim>\<open>cache\<close> and
  \<^verbatim>\<open>inFlightRequests\<close> are shared by all hook instances; each instance has its React state
  and refs. Time is \<^verbatim>\<open>Date.now()\<close> in milliseconds. \<open>events\<close> is a trace added to the state:
  it records, in program order, the calls of \<^verbatim>\<open>config.fetch\<close> and of \<^verbatim>\<open>config.onError\<close>
  and the writes to the in-flight map.
\<close>

type_synonym fieldOptions = "(string \<times> jsval) list"

record cacheEntry =
  data :: fieldOptions
  timestamp :: int

text \<open>
  \<^verbatim>\<open>DataSourceFetchParams\<close>. \<open>dependencies\<close> is the JSON text of the dependencies object:
  the hook keeps it as \<^verbatim>\<open>dependenciesKey\<close>, parses it for the call and the key generator
  serialises it again, which gives the same text back.
\<close>

record fetchParams =
  dependencies :: "string option"
  searchQuery :: "string option"

record dataSourceConfig =
  staleTime :: "int option"
  debounceMs :: "int option"
  cacheKey :: "(fetchParams \<Rightarrow> string) option"
  onError :: bool

text \<open>
  How the promise of a fetch (the call of \<^verbatim>\<open>config.fetch\<close> followed by
  \<^verbatim>\<open>config.transform\<close>) settles: with the transformed options, with an error named
  \<^verbatim>\<open>AbortError\<close>, or with another error.
\<close>

datatype settlement = Resolved fieldOptions | AbortError | Failed string

text \<open>
  A continuation waiting on a fetch promise: the \<^verbatim>\<open>fetchData\<close> call that created it
  (lines 227 to 270) or one that found it in the in-flight map (lines 183 to 195).
\<close>

datatype waiter = Originator nat string | Attached nat

datatype event =
    FetchCalled nat fetchParams nat
  | InFlightSet string nat
  | InFlightDeleted string
  | OnErrorCalled nat string

text \<open>
  One instance of \<^verbatim>\<open>useDataSource\<close>: its props, its state and its refs. A fetch and the
  \<^verbatim>\<open>AbortController\<close> made for it share the number of the fetch promise; \<open>debounceTimer\<close>
  is the pending timeout, if any, with its due time and the query its callback carries.
  \<open>dependsOnLength\<close> is \<^verbatim>\<open>dependsOn.length\<close>, and \<open>dependenciesKey\<close> the memoised JSON text
  of the watched values (the empty string when there are no dependencies).
\<close>

record hook =
  config :: dataSourceConfig
  sourceKey :: string
  dependsOnLength :: nat
  dependenciesKey :: string
  fetchOnMount :: bool
  enabled :: bool
  options :: fieldOptions
  isLoading :: bool
  error :: "string option"
  abortController :: "nat option"
  debounceTimer :: "(int \<times> string) option"
  searchQueryRef :: string
  isMounted :: bool
  lastFetchKey :: "string option"
  isFetching :: bool
  prevDependenciesKey :: string

record world =
  cache :: "string \<rightharpoonup> cacheEntry"
  inFlightRequests :: "string \<rightharpoonup> nat"
  hooks :: "nat \<Rightarrow> hook"
  waiters :: "nat \<Rightarrow> waiter list"
  aborted :: "nat set"
  nextPromise :: nat
  events :: "event list"

definition DEFAULT_STALE_TIME :: int where
  "DEFAULT_STALE_TIME = 30000"

definition DEFAULT_DEBOUNCE_MS :: int where
  "DEFAULT_DEBOUNCE_MS = 300"

definition generateCacheKey :: "string \<Rightarrow> fetchParams \<Rightarrow> string" where
  "generateCacheKey sk params =
     sk @ '':''
        @ (case dependencies params of None \<Rightarrow> '''' | Some deps \<Rightarrow> deps) @ '':''
        @ (case searchQuery params of None \<Rightarrow> '''' | Some query \<Rightarrow> query)"

text \<open>The locals of \<^verbatim>\<open>fetchData\<close> (lines 154 to 165).\<close>

definition staleTimeOf :: "hook \<Rightarrow> int" where
  "staleTimeOf h = (case staleTime (config h) of None \<Rightarrow> DEFAULT_STALE_TIME | Some t \<Rightarrow> t)"

definition paramsOf :: "hook \<Rightarrow> string option \<Rightarrow> fetchParams" where
  "paramsOf h query =
     \<lparr> dependencies = (if dependenciesKey h = '''' then None else Some (dependenciesKey h)),
       searchQuery = query \<rparr>"

definition cacheKeyOf :: "hook \<Rightarrow> string option \<Rightarrow> string" where
  "cacheKeyOf h query =
     (case cacheKey (config h) of
        None \<Rightarrow> generateCacheKey (sourceKey h) (paramsOf h query)
      | Some cacheKeyFn \<Rightarrow> cacheKeyFn (paramsOf h query))"

text \<open>
  Lines 170 to 176 and 185 to 191: \<^verbatim>\<open>setState\<close> with options, guarded by
  \<^verbatim>\<open>isMountedRef\<close>.
\<close>

definition showOptions :: "nat \<Rightarrow> fieldOptions \<Rightarrow> world \<Rightarrow> world" where
  "showOptions hid opts w =
     (let h = hooks w hid
      in if isMounted h
         then w\<lparr>hooks := (hooks w)(hid := h\<lparr>options := opts, isLoading := False, error := None\<rparr>)\<rparr>
         else w)"

text \<open>
  Lines 198 to 225, when there is neither a fresh cache entry nor a request in flight for the
  key: the key is recorded as the last fetch key, the previous controller is aborted and a
  new one made, the state turns to loading, and the fetch promise is created. The
  \<^verbatim>\<open>async\<close> arrow function of line 216 is invoked at once and runs up to its first
  \<^verbatim>\<open>await\<close>, so \<^verbatim>\<open>config.fetch\<close> is called there (line 217), before the promise is
  stored in the in-flight map (line 225); the \<^verbatim>\<open>await\<close> of line 228 then registers the
  originator's continuation.
\<close>

definition startFetch :: "nat \<Rightarrow> string option \<Rightarrow> world \<Rightarrow> world" where
  "startFetch hid query w =
     (let h = hooks w hid;
          key = cacheKeyOf h query;
          p = nextPromise w;
          h1 = h\<lparr>lastFetchKey := Some key, isFetching := True, abortController := Some p\<rparr>;
          h2 = (if isMounted h then h1\<lparr>isLoading := True, error := None\<rparr> else h1)
      in w\<lparr> hooks := (hooks w)(hid := h2),
            aborted := (case abortController h of None \<Rightarrow> aborted w | Some c \<Rightarrow> insert c (aborted w)),
            nextPromise := Suc p,
            events := events w @ [FetchCalled hid (paramsOf h query) p, InFlightSet key p],
            inFlightRequests := (inFlightRequests w)(key \<mapsto> p),
            waiters := (waiters w)(p := [Originator hid key]) \<rparr>)"

text \<open>
  \<^verbatim>\<open>fetchData(searchQuery)\<close> up to its first \<^verbatim>\<open>await\<close>, at time \<open>now\<close>.
\<close>

definition fetchData :: "nat \<Rightarrow> string option \<Rightarrow> int \<Rightarrow> world \<Rightarrow> world" where
  "fetchData hid query now w =
     (let h = hooks w hid;
          key = cacheKeyOf h query
      in if \<not> enabled h then w
         else
           (case (case cache w key of
                    None \<Rightarrow> None
                  | Some cached \<Rightarrow>
                      if now - timestamp cached < staleTimeOf h then Some cached else None) of
              Some cached \<Rightarrow> showOptions hid (data cached) w
            | None \<Rightarrow>
                (case inFlightRequests w key of
                   Some existingRequest \<Rightarrow>
                     w\<lparr>waiters := (waiters w)
                          (existingRequest := waiters w existingRequest @ [Attached hid])\<rparr>
                 | None \<Rightarrow>
                     if lastFetchKey h = Some key then w
                     else startFetch hid query w)))"

text \<open>
  The rest of the originating call once its promise has settled (lines 228 to 270): the
  \<^verbatim>\<open>try\<close> body or the \<^verbatim>\<open>catch\<close> block, then the \<^verbatim>\<open>finally\<close> block.
\<close>

definition resumeOriginator :: "nat \<Rightarrow> string \<Rightarrow> settlement \<Rightarrow> int \<Rightarrow> world \<Rightarrow> world" where
  "resumeOriginator hid key outcome now w =
     (let w1 =
        (case outcome of
           Resolved opts \<Rightarrow>
             showOptions hid opts (w\<lparr>cache := (cache w)(key \<mapsto> \<lparr>data = opts, timestamp = now\<rparr>)\<rparr>)
         | AbortError \<Rightarrow> w
         | Failed msg \<Rightarrow>
             (let h = hooks w hid;
                  w' = (if onError (config h)
                        then w\<lparr>events := events w @ [OnErrorCalled hid msg]\<rparr> else w)
              in if isMounted h
                 then w'\<lparr>hooks := (hooks w')(hid := h\<lparr>isLoading := False, error := Some msg\<rparr>)\<rparr>
                 else w'));
          h1 = hooks w1 hid
      in w1\<lparr> inFlightRequests := (inFlightRequests w1)(key := None),
             events := events w1 @ [InFlightDeleted key],
             hooks := (hooks w1)
               (hid := h1\<lparr>lastFetchKey := (if lastFetchKey h1 = Some key then None else lastFetchKey h1),
                           isFetching := False\<rparr>) \<rparr>)"

text \<open>
  The rest of a call that awaited an existing request (lines 184 to 195): the options are
  shown when it resolved, a rejection is swallowed.
\<close>

definition resumeAttached :: "nat \<Rightarrow> settlement \<Rightarrow> world \<Rightarrow> world" where
  "resumeAttached hid outcome w =
     (case outcome of
        Resolved opts \<Rightarrow> showOptions hid opts w
      | _ \<Rightarrow> w)"

fun runWaiters :: "waiter list \<Rightarrow> settlement \<Rightarrow> int \<Rightarrow> world \<Rightarrow> world" where
  "runWaiters [] outcome now w = w"
| "runWaiters (Originator hid key # rest) outcome now w =
     runWaiters rest outcome now (resumeOriginator hid key outcome now w)"
| "runWaiters (Attached hid # rest) outcome now w =
     runWaiters rest outcome now (resumeAttached hid outcome w)"

text \<open>
  The fetch promise \<open>p\<close> settles at time \<open>now\<close>: its continuations run in the order in
  which they were registered, within the same turn.
\<close>

definition settle :: "nat \<Rightarrow> settlement \<Rightarrow> int \<Rightarrow> world \<Rightarrow> world" where
  "settle p outcome now w =
     runWaiters (waiters w p) outcome now (w\<lparr>waiters := (waiters w)(p := [])\<rparr>)"

text \<open>
  \<^verbatim>\<open>onSearch(query)\<close> at time \<open>now\<close> (lines 276 to 291): the pending timeout is cleared and
  a new one set. A negative delay counts as zero.
\<close>

definition debounceOf :: "hook \<Rightarrow> int" where
  "debounceOf h = (case debounceMs (config h) of None \<Rightarrow> DEFAULT_DEBOUNCE_MS | Some ms \<Rightarrow> ms)"

definition onSearch :: "nat \<Rightarrow> string \<Rightarrow> int \<Rightarrow> world \<Rightarrow> world" where
  "onSearch hid query now w =
     (let h = hooks w hid
      in w\<lparr>hooks := (hooks w)
            (hid := h\<lparr>searchQueryRef := query,
                      debounceTimer := Some (now + max 0 (debounceOf h), query)\<rparr>)\<rparr>)"

text \<open>
  The event loop at time \<open>now\<close>: a pending timeout that is due runs its callback,
  \<^verbatim>\<open>fetchData(query)\<close>; one that is not due, or none, does nothing.
\<close>

definition timerFires :: "nat \<Rightarrow> int \<Rightarrow> world \<Rightarrow> world" where
  "timerFires hid now w =
     (let h = hooks w hid
      in case debounceTimer h of
           None \<Rightarrow> w
         | Some (due, query) \<Rightarrow>
             if due \<le> now
             then fetchData hid (Some query) now
                    (w\<lparr>hooks := (hooks w)(hid := h\<lparr>debounceTimer := None\<rparr>)\<rparr>)
             else w)"

text \<open>
  The cleanup of the effect of lines 304 to 326: the mounted flag is cleared, the current
  controller aborted and the pending timeout cleared.
\<close>

definition effectCleanup :: "nat \<Rightarrow> world \<Rightarrow> world" where
  "effectCleanup hid w =
     (let h = hooks w hid
      in w\<lparr> hooks := (hooks w)(hid := h\<lparr>isMounted := False, debounceTimer := None\<rparr>),
            aborted := (case abortController h of None \<Rightarrow> aborted w | Some c \<Rightarrow> insert c (aborted w)) \<rparr>)"

text \<open>
  The body of the effect, at time \<open>now\<close>: the mounted flag is set; when the instance
  fetches on mount, is enabled and has no fetch in progress, or when the dependencies key
  differs from the one recorded at the last such fetch and there are dependencies, the key
  is recorded, the last fetch key cleared and \<^verbatim>\<open>fetchData()\<close> called, with no search
  query.
\<close>

definition runEffect :: "nat \<Rightarrow> int \<Rightarrow> world \<Rightarrow> world" where
  "runEffect hid now w =
     (let h = (hooks w hid)\<lparr>isMounted := True\<rparr>;
          shouldFetchOnMount = (fetchOnMount h \<and> enabled h \<and> \<not> isFetching h);
          dependenciesChanged = (dependenciesKey h \<noteq> prevDependenciesKey h)
      in if shouldFetchOnMount \<or> (dependenciesChanged \<and> dependsOnLength h > 0)
         then fetchData hid None now
                (w\<lparr>hooks := (hooks w)
                      (hid := h\<lparr>prevDependenciesKey := dependenciesKey h, lastFetchKey := None\<rparr>)\<rparr>)
         else w\<lparr>hooks := (hooks w)(hid := h)\<rparr>)"

text \<open>
  A render of the instance with new values of the watched dependencies, at time \<open>now\<close>:
  the memoised \<^verbatim>\<open>dependenciesKey\<close> changes, and with it \<^verbatim>\<open>fetchData\<close>, so the effect is run
  again, its cleanup first. A render with the same key leaves the effect alone.
\<close>

definition setDependencies :: "nat \<Rightarrow> string \<Rightarrow> int \<Rightarrow> world \<Rightarrow> world" where
  "setDependencies hid depsKey now w =
     (if depsKey = dependenciesKey (hooks w hid) then w
      else
        (let w1 = effectCleanup hid w
         in runEffect hid now
              (w1\<lparr>hooks := (hooks w1)(hid := (hooks w1 hid)\<lparr>dependenciesKey := depsKey\<rparr>)\<rparr>)))"

text \<open>
  A burst of \<^verbatim>\<open>onSearch\<close> calls, each with its time: before each call the event loop has
  run whatever timeout was due.
\<close>

fun searchBurst :: "nat \<Rightarrow> (int \<times> string) list \<Rightarrow> world \<Rightarrow> world" where
  "searchBurst hid [] w = w"
| "searchBurst hid ((t, query) # rest) w =
     searchBurst hid rest (onSearch hid query t (timerFires hid t w))"

text \<open>Consecutive calls are less than \<open>ms\<close> apart.\<close>

fun closeCalls :: "int \<Rightarrow> (int \<times> string) list \<Rightarrow> bool" where
  "closeCalls ms [] = True"
| "closeCalls ms [c] = True"
| "closeCalls ms ((t, q) # (t', q') # rest) = (t' - t < ms \<and> closeCalls ms ((t', q') # rest))"

text \<open>The calls of \<^verbatim>\<open>config.fetch\<close> in a trace.\<close>

fun isFetchCalled :: "event \<Rightarrow> bool" where
  "isFetchCalled (FetchCalled hid params p) = True"
| "isFetchCalled _ = False"

definition fetchCalls :: "world \<Rightarrow> event list" where
  "fetchCalls w = filter isFetchCalled (events w)"

text \<open>
  The test of line 169: the cache holds an entry for the key that is younger than the
  hook's stale time.
\<close>

definition isFresh :: "world \<Rightarrow> hook \<Rightarrow> string \<Rightarrow> int \<Rightarrow> bool" where
  "isFresh w h key now =
     (case cache w key of
        None \<Rightarrow> False
      | Some cached \<Rightarrow> now - timestamp cached < staleTimeOf h)"

text \<open>Example data: a fresh instance and the state of a page before any request.\<close>

definition defaultConfig :: dataSourceConfig where
  "defaultConfig = \<lparr> staleTime = None, debounceMs = None, cacheKey = None, onError = False \<rparr>"

definition freshHook :: "string \<Rightarrow> string \<Rightarrow> hook" where
  "freshHook sk deps =
     \<lparr> config = defaultConfig, sourceKey = sk,
       dependsOnLength = (if deps = '''' then 0 else 1), dependenciesKey = deps,
       fetchOnMount = True, enabled = True,
       options = [], isLoading = False, error = None, abortController = None,
       debounceTimer = None, searchQueryRef = '''', isMounted = True, lastFetchKey = None,
       isFetching = False, prevDependenciesKey = '''' \<rparr>"

definition emptyWorld :: "(nat \<Rightarrow> hook) \<Rightarrow> world" where
  "emptyWorld hs =
     \<lparr> cache = Map.empty, inFlightRequests = Map.empty, hooks = hs, waiters = (\<lambda>p. []),
       aborted = {}, nextPromise = 0, events = [] \<rparr>"

definition citiesPage :: world where
  "citiesPage = emptyWorld (\<lambda>i. freshHook ''cities'' '''')"

definition parisOptions :: fieldOptions where
  "parisOptions = [(''Paris'', JStr ''paris'')]"

definition romeOptions :: fieldOptions where
  "romeOptions = [(''Rome'', JStr ''rome'')]"

text \<open>The same page with a cache entry written at time 0.\<close>

definition cachedPage :: world where
  "cachedPage = citiesPage\<lparr>cache := [''cities::'' \<mapsto> \<lparr>data = parisOptions, timestamp = 0\<rparr>]\<rparr>"

text \<open>A page whose instances are disabled.\<close>

definition disabledPage :: world where
  "disabledPage = emptyWorld (\<lambda>i. (freshHook ''cities'' '''')\<lparr>enabled := False\<rparr>)"

text \<open>
  A page whose instances depend on one watched field, \<open>country\<close>, with the value \<open>fr\<close>.
\<close>

definition regionsPage :: world where
  "regionsPage = emptyWorld (\<lambda>i. freshHook ''regions'' ''{\"country\":\"fr\"}'')"

section \<open>Theorems\<close>

text \<open>
  C6. Array bounds are soft no-ops: when \<open>maxItems\<close> is defined and the item count has
  reached it, \<open>handleAppend\<close> returns the item list unchanged, without calling the
  controller and without an error; when \<open>minItems\<close> is defined and the item count is at or
  below it, \<open>handleRemove\<close> does the same.
\<close>

theorem array_bounds_soft_noop:
  "(maxItems (attrs field) = Some mx \<and> int (length items) \<ge> mx
      \<longrightarrow> handleAppend appendFn field items v = Inr items)
   \<and> (minItems (attrs field) = Some mn \<and> int (length items) \<le> mn
      \<longrightarrow> handleRemove removeFn field items index = Inr items)"
  by (simp add: handleAppend_def handleRemove_def)

theorem array_bounds_soft_noop_witness:
  "handleAppend listAppend
      (FieldDef ((plainField ''tags'' ''array'')\<lparr>itemType := Some ''text'', minItems := Some 1, maxItems := Some 3\<rparr>) None None)
      [JStr ''a'', JStr ''b'', JStr ''c''] JUndefined
     = Inr [JStr ''a'', JStr ''b'', JStr ''c'']
   \<and> handleRemove listRemove
      (FieldDef ((plainField ''tags'' ''array'')\<lparr>itemType := Some ''text'', minItems := Some 1, maxItems := Some 3\<rparr>) None None)
      [JStr ''a''] 0
     = Inr [JStr ''a'']"
proof -
  let ?f = "FieldDef ((plainField ''tags'' ''array'')\<lparr>itemType := Some ''text'', minItems := Some 1, maxItems := Some 3\<rparr>) None None"
  have "maxItems (attrs ?f) = Some 3 \<and> int (length [JStr ''a'', JStr ''b'', JStr ''c'']) \<ge> 3"
    by (simp add: plainField_def)
  moreover have "minItems (attrs ?f) = Some 1 \<and> int (length [JStr ''a'']) \<le> 1"
    by (simp add: plainField_def)
  ultimately show ?thesis
    using array_bounds_soft_noop
            [where field = ?f and mx = 3 and items = "[JStr ''a'', JStr ''b'', JStr ''c'']"
               and appendFn = listAppend and v = JUndefined and mn = 3
               and removeFn = listRemove and index = 0]
          array_bounds_soft_noop
            [where field = ?f and mx = 1 and items = "[JStr ''a'']"
               and appendFn = listAppend and v = JUndefined and mn = 1
               and removeFn = listRemove and index = 0]
    by blast
qed

lemma sameValueZero_iff:
  "sameValueZero sr x y = (strictEq sr x y \<or> (x = JNum NaN \<and> y = JNum NaN))"
  by (induction sr x y rule: sameValueZero.induct) auto

lemma numCompare_not_number:
  "\<not> isNumber a \<or> \<not> isNumber b \<Longrightarrow> numCompare rel a b = False"
  by (cases a; cases b) auto

text \<open>
  C5 (as amended). Condition evaluation: with operator \<open>in\<close> and an array value the result is
  true iff the watched value is a member of the array under the comparison of
  \<^verbatim>\<open>includes\<close> (SameValueZero: strict equality, except that NaN matches NaN);
  \<open>exists\<close> is false exactly for \<^verbatim>\<open>undefined\<close>, \<^verbatim>\<open>null\<close> and the empty string; the four
  relational operators are false whenever a side is not a number; an absent condition is
  true.
\<close>

theorem condition_semantics:
  "(cond_operator c = ''in'' \<and> cond_value c = JArr xs \<longrightarrow>
      evaluateCondition inh sr (Some c) vals
        = (\<exists>x \<in> set xs. sameValueZero sr x (getNestedValue inh vals (cond_when c))))
   \<and> (sameValueZero sr x y = (strictEq sr x y \<or> (x = JNum NaN \<and> y = JNum NaN)))
   \<and> (cond_operator c = ''exists'' \<longrightarrow>
      evaluateCondition inh sr (Some c) vals
        = (getNestedValue inh vals (cond_when c) \<notin> {JUndefined, JNull, JStr ''''}))
   \<and> (cond_operator c \<in> {''gt'', ''gte'', ''lt'', ''lte''}
        \<and> (\<not> isNumber (getNestedValue inh vals (cond_when c)) \<or> \<not> isNumber (cond_value c)) \<longrightarrow>
      evaluateCondition inh sr (Some c) vals = False)
   \<and> evaluateCondition inh sr None vals = True"
proof -
  have a: "cond_operator c = ''in'' \<and> cond_value c = JArr xs \<longrightarrow>
      evaluateCondition inh sr (Some c) vals
        = (\<exists>x \<in> set xs. sameValueZero sr x (getNestedValue inh vals (cond_when c)))"
    by (simp add: evaluateCondition_def Let_def arrayIncludes_def list_ex_iff)
  have b: "cond_operator c = ''exists'' \<longrightarrow>
      evaluateCondition inh sr (Some c) vals
        = (getNestedValue inh vals (cond_when c) \<notin> {JUndefined, JNull, JStr ''''})"
    by (simp add: evaluateCondition_def Let_def)
  have c: "cond_operator c \<in> {''gt'', ''gte'', ''lt'', ''lte''}
        \<and> (\<not> isNumber (getNestedValue inh vals (cond_when c)) \<or> \<not> isNumber (cond_value c)) \<longrightarrow>
      evaluateCondition inh sr (Some c) vals = False"
    by (auto simp: evaluateCondition_def Let_def numCompare_not_number)
  have d: "evaluateCondition inh sr None vals = True"
    by (simp add: evaluateCondition_def)
  show ?thesis using a b c d sameValueZero_iff by blast
qed

theorem condition_semantics_witness:
  "evaluateCondition standardInherited noSharedRefs
      (Some \<lparr>cond_when = ''plan'', cond_operator = ''in'', cond_value = JArr [JStr ''x'', JStr ''y'']\<rparr>)
      (JObj [(''plan'', JStr ''y'')]) = True
   \<and> evaluateCondition standardInherited noSharedRefs
      (Some \<lparr>cond_when = ''plan'', cond_operator = ''in'', cond_value = JArr [JStr ''x'', JStr ''y'']\<rparr>)
      (JObj [(''plan'', JStr ''z'')]) = False
   \<and> evaluateCondition standardInherited noSharedRefs
      (Some \<lparr>cond_when = ''plan'', cond_operator = ''exists'', cond_value = JUndefined\<rparr>)
      (JObj [(''plan'', JStr '''')]) = False
   \<and> evaluateCondition standardInherited noSharedRefs
      (Some \<lparr>cond_when = ''age'', cond_operator = ''gt'', cond_value = JNum (Fin 18)\<rparr>)
      (JObj [(''age'', JStr ''42'')]) = False"
proof -
  let ?cin = "\<lparr>cond_when = ''plan'', cond_operator = ''in'', cond_value = JArr [JStr ''x'', JStr ''y'']\<rparr>"
  let ?cex = "\<lparr>cond_when = ''plan'', cond_operator = ''exists'', cond_value = JUndefined\<rparr>"
  let ?cgt = "\<lparr>cond_when = ''age'', cond_operator = ''gt'', cond_value = JNum (Fin 18)\<rparr>"
  have v1: "getNestedValue standardInherited (JObj [(''plan'', JStr ''y'')]) ''plan'' = JStr ''y''"
    by (simp add: getNestedValue_def)
  have v2: "getNestedValue standardInherited (JObj [(''plan'', JStr ''z'')]) ''plan'' = JStr ''z''"
    by (simp add: getNestedValue_def)
  have v3: "getNestedValue standardInherited (JObj [(''plan'', JStr '''')]) ''plan'' = JStr ''''"
    by (simp add: getNestedValue_def)
  have v4: "getNestedValue standardInherited (JObj [(''age'', JStr ''42'')]) ''age'' = JStr ''42''"
    by (simp add: getNestedValue_def)
  have "evaluateCondition standardInherited noSharedRefs (Some ?cin) (JObj [(''plan'', JStr ''y'')]) = True"
    using condition_semantics[where c = ?cin and xs = "[JStr ''x'', JStr ''y'']"
        and sr = noSharedRefs and inh = standardInherited and vals = "JObj [(''plan'', JStr ''y'')]"] v1
    by simp
  moreover have "evaluateCondition standardInherited noSharedRefs (Some ?cin) (JObj [(''plan'', JStr ''z'')]) = False"
    using condition_semantics[where c = ?cin and xs = "[JStr ''x'', JStr ''y'']"
        and sr = noSharedRefs and inh = standardInherited and vals = "JObj [(''plan'', JStr ''z'')]"] v2
    by simp
  moreover have "evaluateCondition standardInherited noSharedRefs (Some ?cex) (JObj [(''plan'', JStr '''')]) = False"
    using condition_semantics[where c = ?cex and sr = noSharedRefs and inh = standardInherited
        and vals = "JObj [(''plan'', JStr '''')]"] v3
    by simp
  moreover have "evaluateCondition standardInherited noSharedRefs (Some ?cgt) (JObj [(''age'', JStr ''42'')]) = False"
    using condition_semantics[where c = ?cgt and sr = noSharedRefs and inh = standardInherited
        and vals = "JObj [(''age'', JStr ''42'')]"] v4
    by simp
  ultimately show ?thesis by blast
qed

text \<open>
  C5 as stated (membership by strict equality) fails for NaN: the array \<^verbatim>\<open>[NaN]\<close>
  includes the watched value NaN, which is strictly equal to no member.
\<close>

theorem condition_in_strict_counterexample:
  "evaluateCondition standardInherited noSharedRefs
      (Some \<lparr>cond_when = ''n'', cond_operator = ''in'', cond_value = JArr [JNum NaN]\<rparr>)
      (JObj [(''n'', JNum NaN)]) = True
   \<and> getNestedValue standardInherited (JObj [(''n'', JNum NaN)]) ''n'' = JNum NaN
   \<and> strictEq noSharedRefs (JNum NaN) (JNum NaN) = False"
  by (simp add: evaluateCondition_def Let_def getNestedValue_def arrayIncludes_def)











declare validateField.simps [simp del]














lemma checkRootNames_ok_iff:
  "(checkRootNames fs seen = Inr ()) =
     (distinct (map (\<lambda>f. name (attrs f)) fs) \<and> (\<forall>f \<in> set fs. name (attrs f) \<notin> seen))"
proof (induction fs arbitrary: seen)
  case Nil
  show ?case by simp
next
  case (Cons a fs)
  have "(checkRootNames (a # fs) seen = Inr ()) =
          (name (attrs a) \<notin> seen \<and> checkRootNames fs (insert (name (attrs a)) seen) = Inr ())"
    by simp
  also have "\<dots> = (name (attrs a) \<notin> seen \<and> distinct (map (\<lambda>f. name (attrs f)) fs)
        \<and> (\<forall>f \<in> set fs. name (attrs f) \<notin> insert (name (attrs a)) seen))"
    by (simp only: Cons.IH)
  also have "\<dots> = (distinct (map (\<lambda>f. name (attrs f)) (a # fs))
        \<and> (\<forall>f \<in> set (a # fs). name (attrs f) \<notin> seen))"
    by (auto simp: image_iff)
  finally show ?case .
qed

lemma checkRootNames_error:
  "checkRootNames fs seen = Inl e \<Longrightarrow>
     \<exists>f \<in> set fs. e = SchemaValidationError
        (''Duplicate field name \"'' @ name (attrs f) @ ''\" at root level'') ''root''"
  by (induction fs arbitrary: seen) (auto split: if_splits)

lemma parseSchema_ok_iff:
  "(\<exists>p. parseSchema schema = Inr p) =
     (\<exists>fs. schema_fields schema = Some fs \<and> fs \<noteq> [] \<and> validateFields fs ''root'' = Inr ()
        \<and> distinct (map (\<lambda>f. name (attrs f)) fs))"
proof (cases "schema_fields schema")
  case None
  then show ?thesis by (simp add: parseSchema_def)
next
  case (Some fs)
  show ?thesis
  proof (cases "fs \<noteq> [] \<and> validateFields fs ''root'' = Inr ()")
    case True
    have "(\<exists>p. parseSchema schema = Inr p) = (checkRootNames fs {} = Inr ())"
      using Some True by (cases "checkRootNames fs {}") (simp_all add: parseSchema_def)
    then show ?thesis using Some True by (simp add: checkRootNames_ok_iff)
  next
    case False
    then show ?thesis using Some
      by (cases "validateFields fs ''root''") (auto simp: parseSchema_def)
  qed
qed

text \<open>
  C9 (as amended). Name uniqueness is enforced among the root-level fields only: a schema
  in which two root-level field definitions share a name is rejected by \<open>parseSchema\<close>,
  with the duplicate-name error at path \<open>root\<close> when every field is otherwise valid; and a
  schema is accepted exactly when it has a non-empty field list that validates and whose
  root names are distinct, so that no uniqueness check applies to the children of an
  object field or to the item fields of an array.
\<close>

theorem root_names_unique:
  "(schema_fields schema = Some fs \<and> \<not> distinct (map (\<lambda>f. name (attrs f)) fs) \<longrightarrow>
      (\<exists>e. parseSchema schema = Inl e)
      \<and> (validateFields fs ''root'' = Inr () \<longrightarrow>
           (\<exists>f \<in> set fs. parseSchema schema =
              Inl (SchemaValidationError
                     (''Duplicate field name \"'' @ name (attrs f) @ ''\" at root level'') ''root''))))
   \<and> ((\<exists>p. parseSchema schema = Inr p) =
        (\<exists>fs. schema_fields schema = Some fs \<and> fs \<noteq> [] \<and> validateFields fs ''root'' = Inr ()
           \<and> distinct (map (\<lambda>f. name (attrs f)) fs)))"
proof (intro conjI impI)
  assume h: "schema_fields schema = Some fs \<and> \<not> distinct (map (\<lambda>f. name (attrs f)) fs)"
  then have "\<not> (\<exists>p. parseSchema schema = Inr p)"
    by (simp add: parseSchema_ok_iff)
  then show "\<exists>e. parseSchema schema = Inl e"
    by (cases "parseSchema schema") auto
next
  assume h: "schema_fields schema = Some fs \<and> \<not> distinct (map (\<lambda>f. name (attrs f)) fs)"
    and v: "validateFields fs ''root'' = Inr ()"
  from h have ne: "fs \<noteq> []" by auto
  from h have "checkRootNames fs {} \<noteq> Inr ()"
    by (simp add: checkRootNames_ok_iff)
  then obtain e where e: "checkRootNames fs {} = Inl e"
    by (cases "checkRootNames fs {}") auto
  with h v ne have "parseSchema schema = Inl e"
    by (simp add: parseSchema_def)
  with checkRootNames_error[OF e]
  show "\<exists>f \<in> set fs. parseSchema schema =
              Inl (SchemaValidationError
                     (''Duplicate field name \"'' @ name (attrs f) @ ''\" at root level'') ''root'')"
    by auto
next
  show "(\<exists>p. parseSchema schema = Inr p) =
        (\<exists>fs. schema_fields schema = Some fs \<and> fs \<noteq> [] \<and> validateFields fs ''root'' = Inr ()
           \<and> distinct (map (\<lambda>f. name (attrs f)) fs))"
    by (rule parseSchema_ok_iff)
qed

theorem root_names_unique_witness:
  "parseSchema
     \<lparr>schema_fields = Some [FieldDef (plainField ''email'' ''email'') None None,
                            FieldDef (plainField ''email'' ''text'') None None]\<rparr>
   = Inl (SchemaValidationError ''Duplicate field name \"email\" at root level'' ''root'')"
proof -
  let ?fs = "[FieldDef (plainField ''email'' ''email'') None None,
              FieldDef (plainField ''email'' ''text'') None None]"
  have h: "schema_fields \<lparr>schema_fields = Some ?fs\<rparr> = Some ?fs
      \<and> \<not> distinct (map (\<lambda>f. name (attrs f)) ?fs)"
    by (simp add: plainField_def)
  have v: "validateFields ?fs ''root'' = Inr ()"
    by (simp add: validateField.simps validateTail_def plainField_def VALID_FIELD_TYPES_def)
  from h v have "\<exists>f \<in> set ?fs. parseSchema \<lparr>schema_fields = Some ?fs\<rparr> =
              Inl (SchemaValidationError
                     (''Duplicate field name \"'' @ name (attrs f) @ ''\" at root level'') ''root'')"
    using root_names_unique[where schema = "\<lparr>schema_fields = Some ?fs\<rparr>" and fs = ?fs]
    by blast
  then show ?thesis by (simp add: plainField_def)
qed

text \<open>
  C9 as stated fails below the root: a schema whose object field has two children named
  \<open>street\<close>, and a schema whose array of objects has two item fields named \<open>email\<close>, are
  both accepted by \<open>parseSchema\<close>.
\<close>

theorem nested_duplicate_names_counterexample:
  "parseSchema
     \<lparr>schema_fields = Some
        [FieldDef (plainField ''address'' ''object'')
           (Some [FieldDef (plainField ''street'' ''text'') None None,
                  FieldDef (plainField ''street'' ''text'') None None]) None]\<rparr>
   = Inr \<lparr>schema_fields = Some
        [FieldDef (plainField ''address'' ''object'')
           (Some [FieldDef (plainField ''street'' ''text'') None None,
                  FieldDef (plainField ''street'' ''text'') None None]) None]\<rparr>
   \<and> parseSchema
     \<lparr>schema_fields = Some
        [FieldDef ((plainField ''members'' ''array'')\<lparr>itemType := Some ''object''\<rparr>) None
           (Some [FieldDef (plainField ''email'' ''email'') None None,
                  FieldDef (plainField ''email'' ''email'') None None])]\<rparr>
   = Inr \<lparr>schema_fields = Some
        [FieldDef ((plainField ''members'' ''array'')\<lparr>itemType := Some ''object''\<rparr>) None
           (Some [FieldDef (plainField ''email'' ''email'') None None,
                  FieldDef (plainField ''email'' ''email'') None None])]\<rparr>"
  by (simp add: parseSchema_def validateField.simps validateTail_def plainField_def
        VALID_FIELD_TYPES_def)

lemma objSet_Nil_iff: "(objSet k v al = []) = (k = ''__proto__'' \<and> al = [])"
  by (cases al) (auto simp: objSet_def)

lemma processFields_nonempty:
  "(processFields fs target \<noteq> []) = (target \<noteq> [] \<or> list_ex contributes fs)"
proof (induction fs target rule: processFields.induct)
  case (1 target)
  show ?case by simp
next
  case (2 a flds iflds rest target)
  show ?case
  proof (cases "defaultValue a \<noteq> JUndefined")
    case True
    with "2.IH"(2) show ?thesis by (auto simp: objSet_Nil_iff)
  next
    case nodef: False
    show ?thesis
    proof (cases "ftype a = ''object'' \<and> flds \<noteq> None")
      case True
      then obtain fs where fs: "flds = Some fs" by auto
      from "2.IH"(1)[OF nodef True fs]
      have n: "(processFields fs [] \<noteq> []) = list_ex contributes fs" by simp
      from True have t: "ftype a \<noteq> ''array''" "ftype a \<noteq> ''checkbox''" "ftype a \<noteq> ''switch''"
        by auto
      show ?thesis
        using "2.IH"(2) nodef True fs n t by (auto simp: objSet_Nil_iff Let_def)
    next
      case False
      then show ?thesis
        using "2.IH"(2) nodef by (auto simp: objSet_Nil_iff split: option.splits)
    qed
  qed
qed

lemma processFields_step:
  "processFields (f # rest) target =
     processFields rest
       (case expectedDefault f of
          None \<Rightarrow> target
        | Some v \<Rightarrow> objSet (name (attrs f)) v target)"
proof (cases f)
  case (FieldDef a flds iflds)
  have n: "\<And>fs. (processFields fs [] \<noteq> []) = list_ex contributes fs"
    by (simp add: processFields_nonempty)
  show ?thesis
  proof (cases "ftype a = ''object''")
    case True
    then have t: "ftype a \<noteq> ''array''" "ftype a \<noteq> ''checkbox''" "ftype a \<noteq> ''switch''"
      by auto
    show ?thesis
      using FieldDef True t n
      by (cases flds) (simp_all add: expectedDefault_def Let_def)
  next
    case False
    then show ?thesis
      using FieldDef by (simp add: expectedDefault_def)
  qed
qed

lemma contributes_iff:
  "contributes f = (name (attrs f) \<noteq> ''__proto__'' \<and> expectedDefault f \<noteq> None)"
  by (cases f) (auto simp: expectedDefault_def split: option.splits)

lemma last_filter:
  assumes "filter P xs = c # cs"
  shows "P (last (c # cs))"
proof -
  have "last (c # cs) \<in> set (c # cs)" by (rule last_in_set) simp
  then have "last (c # cs) \<in> set (filter P xs)" using assms by simp
  then show ?thesis by simp
qed

lemma lastContribution_Cons:
  "lastContribution n (f # fs) =
     (case lastContribution n fs of
        Some v \<Rightarrow> Some v
      | None \<Rightarrow> if name (attrs f) = n \<and> n \<noteq> ''__proto__'' then expectedDefault f else None)"
proof (cases "filter (\<lambda>f. name (attrs f) = n \<and> expectedDefault f \<noteq> None) fs")
  case Nil
  then show ?thesis by (auto simp: lastContribution_def)
next
  case (Cons c cs)
  from last_filter[OF Cons] obtain v where "expectedDefault (last (c # cs)) = Some v" by auto
  with Cons show ?thesis by (simp add: lastContribution_def)
qed

lemma processFields_lookup:
  "map_of (processFields fs target) n =
     (case lastContribution n fs of None \<Rightarrow> map_of target n | Some v \<Rightarrow> Some v)"
proof (induction fs arbitrary: target)
  case Nil
  show ?case by (simp add: lastContribution_def)
next
  case (Cons f fs)
  show ?case
    unfolding processFields_step Cons.IH lastContribution_Cons
    by (auto simp: objSet_def update_conv' split: option.splits)
qed

lemma processFields_distinct_keys:
  "distinct (map fst target) \<Longrightarrow> distinct (map fst (processFields fs target))"
proof (induction fs arbitrary: target)
  case Nil
  then show ?case by simp
next
  case (Cons f fs)
  show ?case
    unfolding processFields_step
    by (rule Cons.IH) (simp add: Cons.prems objSet_def distinct_update split: option.splits)
qed

lemma processFields_keys:
  "fst ` set (processFields fs target)
     = fst ` set target \<union> {name (attrs f) | f. f \<in> set fs \<and> contributes f}"
proof (induction fs arbitrary: target)
  case Nil
  show ?case by simp
next
  case (Cons f fs)
  show ?case
    unfolding processFields_step Cons.IH
    by (auto simp: contributes_iff objSet_def dom_update split: option.splits)
qed

lemma lastContribution_distinct:
  assumes "distinct (map (\<lambda>f. name (attrs f)) fs)" "f \<in> set fs" "name (attrs f) \<noteq> ''__proto__''"
  shows "lastContribution (name (attrs f)) fs = expectedDefault f"
proof -
  have "filter (\<lambda>g. name (attrs g) = name (attrs f) \<and> expectedDefault g \<noteq> None) fs
          = (if expectedDefault f \<noteq> None then [f] else [])"
    using assms(1,2)
  proof (induction fs)
    case Nil
    then show ?case by simp
  next
    case (Cons g fs)
    from Cons.prems(1) have ng: "name (attrs g) \<notin> (\<lambda>f. name (attrs f)) ` set fs" by simp
    show ?case
    proof (cases "g = f")
      case True
      with ng have "\<forall>h \<in> set fs. name (attrs h) \<noteq> name (attrs f)" by (metis image_eqI)
      then have "filter (\<lambda>g. name (attrs g) = name (attrs f) \<and> expectedDefault g \<noteq> None) fs = []"
        by (simp add: filter_empty_conv)
      with True show ?thesis by simp
    next
      case False
      with Cons.prems have fin: "f \<in> set fs" by simp
      with ng have "name (attrs g) \<noteq> name (attrs f)" by (metis image_eqI)
      with Cons.IH fin Cons.prems show ?thesis by simp
    qed
  qed
  with assms(3) show ?thesis by (auto simp: lastContribution_def)
qed

text \<open>
  C10 (as amended). Initial-value synthesis. At every level of a schema, the object that
  \<open>processFields\<close> builds from a list of sibling fields has each key once; its keys are the
  names of the fields that contribute: those, not named \<^verbatim>\<open>__proto__\<close>, that have an
  explicit \<open>defaultValue\<close>, or are an array, a checkbox or a switch, or are an object with
  a contributing descendant; under a name it holds the expected default of the last
  contributing field of that name: the explicit \<open>defaultValue\<close>; else the empty array for an
  array; else false for a checkbox or a switch; else the object built from the children.
  For a schema that \<open>parseSchema\<close> accepts the root names are distinct, so
  \<open>getDefaultValues\<close> maps every root field not named \<^verbatim>\<open>__proto__\<close> to its own expected
  default, and a root field without one has no entry.
\<close>

theorem default_values_synthesis:
  "(parseSchema schema = Inr p \<longrightarrow>
      (\<exists>fs d. schema_fields schema = Some fs \<and> getDefaultValues schema = Some d
         \<and> (\<forall>f \<in> set fs. name (attrs f) \<noteq> ''__proto__'' \<longrightarrow>
               map_of d (name (attrs f)) = expectedDefault f)
         \<and> fst ` set d = {name (attrs f) | f. f \<in> set fs \<and> contributes f}
         \<and> distinct (map fst d)))
   \<and> (\<forall>n. map_of (processFields children []) n = lastContribution n children)
   \<and> fst ` set (processFields children []) = {name (attrs f) | f. f \<in> set children \<and> contributes f}
   \<and> distinct (map fst (processFields children []))
   \<and> (distinct (map (\<lambda>f. name (attrs f)) children) \<longrightarrow>
        (\<forall>f \<in> set children. name (attrs f) \<noteq> ''__proto__'' \<longrightarrow>
           map_of (processFields children []) (name (attrs f)) = expectedDefault f))
   \<and> contributes (FieldDef a flds iflds) =
       (name a \<noteq> ''__proto__''
        \<and> (defaultValue a \<noteq> JUndefined \<or> ftype a = ''array'' \<or> ftype a = ''checkbox''
            \<or> ftype a = ''switch''
            \<or> (ftype a = ''object'' \<and> (\<exists>fs. flds = Some fs \<and> (\<exists>c \<in> set fs. contributes c)))))"
proof -
  have look: "\<And>fs n. map_of (processFields fs []) n = lastContribution n fs"
    by (simp add: processFields_lookup split: option.splits)
  have keys: "\<And>fs. fst ` set (processFields fs []) = {name (attrs f) | f. f \<in> set fs \<and> contributes f}"
    by (simp add: processFields_keys)
  have dist: "\<And>fs. distinct (map fst (processFields fs []))"
    by (simp add: processFields_distinct_keys)
  have level: "\<And>fs. distinct (map (\<lambda>f. name (attrs f)) fs) \<Longrightarrow>
        (\<forall>f \<in> set fs. name (attrs f) \<noteq> ''__proto__'' \<longrightarrow>
           map_of (processFields fs []) (name (attrs f)) = expectedDefault f)"
    by (simp add: look lastContribution_distinct)
  have root: "parseSchema schema = Inr p \<longrightarrow>
      (\<exists>fs d. schema_fields schema = Some fs \<and> getDefaultValues schema = Some d
         \<and> (\<forall>f \<in> set fs. name (attrs f) \<noteq> ''__proto__'' \<longrightarrow>
               map_of d (name (attrs f)) = expectedDefault f)
         \<and> fst ` set d = {name (attrs f) | f. f \<in> set fs \<and> contributes f}
         \<and> distinct (map fst d))"
  proof
    assume "parseSchema schema = Inr p"
    then have "\<exists>p. parseSchema schema = Inr p" by blast
    then obtain fs where fs: "schema_fields schema = Some fs"
      and d: "distinct (map (\<lambda>f. name (attrs f)) fs)"
      by (auto simp: parseSchema_ok_iff)
    from fs have "getDefaultValues schema = Some (processFields fs [])"
      by (simp add: getDefaultValues_def)
    with fs level[OF d] keys[of fs] dist[of fs]
    show "\<exists>fs d. schema_fields schema = Some fs \<and> getDefaultValues schema = Some d
         \<and> (\<forall>f \<in> set fs. name (attrs f) \<noteq> ''__proto__'' \<longrightarrow>
               map_of d (name (attrs f)) = expectedDefault f)
         \<and> fst ` set d = {name (attrs f) | f. f \<in> set fs \<and> contributes f}
         \<and> distinct (map fst d)"
      by blast
  qed
  have con: "contributes (FieldDef a flds iflds) =
       (name a \<noteq> ''__proto__''
        \<and> (defaultValue a \<noteq> JUndefined \<or> ftype a = ''array'' \<or> ftype a = ''checkbox''
            \<or> ftype a = ''switch''
            \<or> (ftype a = ''object'' \<and> (\<exists>fs. flds = Some fs \<and> (\<exists>c \<in> set fs. contributes c)))))"
    by (cases flds) (auto simp: list_ex_iff)
  from root look[of children] keys[of children] dist[of children] level[of children] con
  show ?thesis by blast
qed

theorem default_values_synthesis_witness:
  "\<exists>d. getDefaultValues
        \<lparr>schema_fields = Some
           [FieldDef ((plainField ''title'' ''text'')\<lparr>defaultValue := JStr ''Dr''\<rparr>) None None,
            FieldDef (plainField ''agree'' ''checkbox'') None None,
            FieldDef (plainField ''age'' ''number'') None None,
            FieldDef (plainField ''address'' ''object'')
              (Some [FieldDef (plainField ''street'' ''text'') None None,
                     FieldDef ((plainField ''phones'' ''array'')\<lparr>itemType := Some ''text''\<rparr>) None None])
              None,
            FieldDef (plainField ''extra'' ''object'')
              (Some [FieldDef (plainField ''note'' ''text'') None None]) None]\<rparr> = Some d
      \<and> map_of d ''title'' = Some (JStr ''Dr'')
      \<and> map_of d ''agree'' = Some (JBool False)
      \<and> map_of d ''age'' = None
      \<and> map_of d ''address'' = Some (JObj [(''phones'', JArr [])])
      \<and> map_of d ''extra'' = None"
proof -
  let ?title = "FieldDef ((plainField ''title'' ''text'')\<lparr>defaultValue := JStr ''Dr''\<rparr>) None None"
  let ?agree = "FieldDef (plainField ''agree'' ''checkbox'') None None"
  let ?age = "FieldDef (plainField ''age'' ''number'') None None"
  let ?address = "FieldDef (plainField ''address'' ''object'')
              (Some [FieldDef (plainField ''street'' ''text'') None None,
                     FieldDef ((plainField ''phones'' ''array'')\<lparr>itemType := Some ''text''\<rparr>) None None])
              None"
  let ?extra = "FieldDef (plainField ''extra'' ''object'')
              (Some [FieldDef (plainField ''note'' ''text'') None None]) None"
  let ?fs = "[?title, ?agree, ?age, ?address, ?extra]"
  let ?s = "\<lparr>schema_fields = Some ?fs\<rparr>"
  have ok: "parseSchema ?s = Inr ?s"
    by (simp add: parseSchema_def validateField.simps validateTail_def plainField_def
          VALID_FIELD_TYPES_def)
  have "\<exists>fs d. schema_fields ?s = Some fs \<and> getDefaultValues ?s = Some d
         \<and> (\<forall>f \<in> set fs. name (attrs f) \<noteq> ''__proto__'' \<longrightarrow>
               map_of d (name (attrs f)) = expectedDefault f)
         \<and> fst ` set d = {name (attrs f) | f. f \<in> set fs \<and> contributes f}
         \<and> distinct (map fst d)"
    by (rule mp[OF default_values_synthesis[where schema = ?s and p = ?s and children = "[]"
        and a = "plainField ''x'' ''text''" and flds = None and iflds = None, THEN conjunct1] ok])
  then obtain fs d where fs: "schema_fields ?s = Some fs" and d: "getDefaultValues ?s = Some d"
    and m': "\<forall>f \<in> set fs. name (attrs f) \<noteq> ''__proto__'' \<longrightarrow>
               map_of d (name (attrs f)) = expectedDefault f"
    by (elim exE conjE) (rule that)
  from fs have fs': "fs = ?fs" by simp
  from m' fs' have m: "\<forall>f \<in> set fs. map_of d (name (attrs f)) = expectedDefault f"
    by (simp add: plainField_def)
  have "map_of d (name (attrs ?title)) = expectedDefault ?title"
    using m fs' by simp
  then have t: "map_of d ''title'' = Some (JStr ''Dr'')"
    by (simp add: expectedDefault_def plainField_def)
  have "map_of d (name (attrs ?agree)) = expectedDefault ?agree"
    using m fs' by simp
  then have a: "map_of d ''agree'' = Some (JBool False)"
    by (simp add: expectedDefault_def plainField_def)
  have "map_of d (name (attrs ?age)) = expectedDefault ?age"
    using m fs' by simp
  then have g: "map_of d ''age'' = None"
    by (simp add: expectedDefault_def plainField_def)
  have "map_of d (name (attrs ?address)) = expectedDefault ?address"
    using m fs' by simp
  then have ad: "map_of d ''address'' = Some (JObj [(''phones'', JArr [])])"
    by (simp add: expectedDefault_def plainField_def objSet_def)
  have "map_of d (name (attrs ?extra)) = expectedDefault ?extra"
    using m fs' by simp
  then have e: "map_of d ''extra'' = None"
    by (simp add: expectedDefault_def plainField_def)
  from d t a g ad e show ?thesis by blast
qed

text \<open>
  C10 as stated maps every field with an explicit \<open>defaultValue\<close> to that value. A schema
  with a text field named \<^verbatim>\<open>__proto__\<close> whose default is \<open>x\<close>, and a checkbox, is
  accepted; its default values hold the checkbox only. A schema whose object \<open>address\<close>
  has two children named \<open>street\<close>, with the defaults \<open>a\<close> and \<open>b\<close>, is accepted too;
  the nested object holds the second only.
\<close>

theorem default_values_proto_counterexample:
  "parseSchema
      \<lparr>schema_fields = Some
         [FieldDef ((plainField ''__proto__'' ''text'')\<lparr>defaultValue := JStr ''x''\<rparr>) None None,
          FieldDef (plainField ''a'' ''checkbox'') None None]\<rparr>
     = Inr \<lparr>schema_fields = Some
         [FieldDef ((plainField ''__proto__'' ''text'')\<lparr>defaultValue := JStr ''x''\<rparr>) None None,
          FieldDef (plainField ''a'' ''checkbox'') None None]\<rparr>
   \<and> getDefaultValues
      \<lparr>schema_fields = Some
         [FieldDef ((plainField ''__proto__'' ''text'')\<lparr>defaultValue := JStr ''x''\<rparr>) None None,
          FieldDef (plainField ''a'' ''checkbox'') None None]\<rparr>
     = Some [(''a'', JBool False)]
   \<and> parseSchema
      \<lparr>schema_fields = Some
         [FieldDef (plainField ''address'' ''object'')
            (Some [FieldDef ((plainField ''street'' ''text'')\<lparr>defaultValue := JStr ''a''\<rparr>) None None,
                   FieldDef ((plainField ''street'' ''text'')\<lparr>defaultValue := JStr ''b''\<rparr>) None None])
            None]\<rparr>
     = Inr \<lparr>schema_fields = Some
         [FieldDef (plainField ''address'' ''object'')
            (Some [FieldDef ((plainField ''street'' ''text'')\<lparr>defaultValue := JStr ''a''\<rparr>) None None,
                   FieldDef ((plainField ''street'' ''text'')\<lparr>defaultValue := JStr ''b''\<rparr>) None None])
            None]\<rparr>
   \<and> getDefaultValues
      \<lparr>schema_fields = Some
         [FieldDef (plainField ''address'' ''object'')
            (Some [FieldDef ((plainField ''street'' ''text'')\<lparr>defaultValue := JStr ''a''\<rparr>) None None,
                   FieldDef ((plainField ''street'' ''text'')\<lparr>defaultValue := JStr ''b''\<rparr>) None None])
            None]\<rparr>
     = Some [(''address'', JObj [(''street'', JStr ''b'')])]"
  by (simp add: parseSchema_def validateField.simps validateTail_def plainField_def
        VALID_FIELD_TYPES_def getDefaultValues_def objSet_def)

lemma fetchData_fresh:
  "enabled (hooks w hid) \<Longrightarrow> cache w (cacheKeyOf (hooks w hid) q) = Some e
   \<Longrightarrow> now - timestamp e < staleTimeOf (hooks w hid)
   \<Longrightarrow> fetchData hid q now w = showOptions hid (data e) w"
  by (simp add: fetchData_def Let_def)

lemma fetchData_start:
  "enabled (hooks w hid) \<Longrightarrow> \<not> isFresh w (hooks w hid) (cacheKeyOf (hooks w hid) q) now
   \<Longrightarrow> inFlightRequests w (cacheKeyOf (hooks w hid) q) = None
   \<Longrightarrow> lastFetchKey (hooks w hid) \<noteq> Some (cacheKeyOf (hooks w hid) q)
   \<Longrightarrow> fetchData hid q now w = startFetch hid q w"
  by (simp add: fetchData_def isFresh_def Let_def split: option.splits)

lemma fetchData_attach:
  "enabled (hooks w hid) \<Longrightarrow> \<not> isFresh w (hooks w hid) (cacheKeyOf (hooks w hid) q) now
   \<Longrightarrow> inFlightRequests w (cacheKeyOf (hooks w hid) q) = Some p
   \<Longrightarrow> fetchData hid q now w = w\<lparr>waiters := (waiters w)(p := waiters w p @ [Attached hid])\<rparr>"
  by (simp add: fetchData_def isFresh_def Let_def split: option.splits)

lemma startFetch_sel:
  "cache (startFetch hid q w) = cache w"
  "nextPromise (startFetch hid q w) = Suc (nextPromise w)"
  "inFlightRequests (startFetch hid q w)
     = (inFlightRequests w)(cacheKeyOf (hooks w hid) q \<mapsto> nextPromise w)"
  "events (startFetch hid q w)
     = events w @ [FetchCalled hid (paramsOf (hooks w hid) q) (nextPromise w),
                   InFlightSet (cacheKeyOf (hooks w hid) q) (nextPromise w)]"
  "waiters (startFetch hid q w)
     = (waiters w)(nextPromise w := [Originator hid (cacheKeyOf (hooks w hid) q)])"
  "aborted (startFetch hid q w)
     = (case abortController (hooks w hid) of None \<Rightarrow> aborted w | Some c \<Rightarrow> insert c (aborted w))"
  by (simp_all add: startFetch_def Let_def)

lemma startFetch_hook:
  "config (hooks (startFetch hid q w) j) = config (hooks w j)"
  "sourceKey (hooks (startFetch hid q w) j) = sourceKey (hooks w j)"
  "dependenciesKey (hooks (startFetch hid q w) j) = dependenciesKey (hooks w j)"
  "enabled (hooks (startFetch hid q w) j) = enabled (hooks w j)"
  "isMounted (hooks (startFetch hid q w) j) = isMounted (hooks w j)"
  "options (hooks (startFetch hid q w) j) = options (hooks w j)"
  "debounceTimer (hooks (startFetch hid q w) j) = debounceTimer (hooks w j)"
  "lastFetchKey (hooks (startFetch hid q w) j)
     = (if j = hid then Some (cacheKeyOf (hooks w hid) q) else lastFetchKey (hooks w j))"
  "abortController (hooks (startFetch hid q w) j)
     = (if j = hid then Some (nextPromise w) else abortController (hooks w j))"
  by (simp_all add: startFetch_def Let_def)

lemma params_cong:
  "dependenciesKey h' = dependenciesKey h \<Longrightarrow> paramsOf h' q = paramsOf h q"
  by (simp add: paramsOf_def)

lemma key_cong:
  "config h' = config h \<Longrightarrow> sourceKey h' = sourceKey h \<Longrightarrow> dependenciesKey h' = dependenciesKey h
   \<Longrightarrow> cacheKeyOf h' q = cacheKeyOf h q \<and> paramsOf h' q = paramsOf h q
       \<and> staleTimeOf h' = staleTimeOf h"
  using params_cong[of h' h q] by (simp add: cacheKeyOf_def staleTimeOf_def split: option.split)

lemma showOptions_sel:
  "cache (showOptions hid os w) = cache w"
  "inFlightRequests (showOptions hid os w) = inFlightRequests w"
  "events (showOptions hid os w) = events w"
  "waiters (showOptions hid os w) = waiters w"
  "nextPromise (showOptions hid os w) = nextPromise w"
  "aborted (showOptions hid os w) = aborted w"
  by (simp_all add: showOptions_def Let_def)

lemma showOptions_hook:
  "config (hooks (showOptions hid os w) j) = config (hooks w j)"
  "sourceKey (hooks (showOptions hid os w) j) = sourceKey (hooks w j)"
  "dependenciesKey (hooks (showOptions hid os w) j) = dependenciesKey (hooks w j)"
  "enabled (hooks (showOptions hid os w) j) = enabled (hooks w j)"
  "isMounted (hooks (showOptions hid os w) j) = isMounted (hooks w j)"
  "lastFetchKey (hooks (showOptions hid os w) j) = lastFetchKey (hooks w j)"
  "abortController (hooks (showOptions hid os w) j) = abortController (hooks w j)"
  "debounceTimer (hooks (showOptions hid os w) j) = debounceTimer (hooks w j)"
  "options (hooks (showOptions hid os w) j)
     = (if j = hid \<and> isMounted (hooks w hid) then os else options (hooks w j))"
  by (simp_all add: showOptions_def Let_def)

lemma resumeOriginator_sel:
  "inFlightRequests (resumeOriginator hid key outcome now w) = (inFlightRequests w)(key := None)"
  "waiters (resumeOriginator hid key outcome now w) = waiters w"
  "nextPromise (resumeOriginator hid key outcome now w) = nextPromise w"
  "aborted (resumeOriginator hid key outcome now w) = aborted w"
  "cache (resumeOriginator hid key outcome now w)
     = (case outcome of Resolved os \<Rightarrow> (cache w)(key \<mapsto> \<lparr>data = os, timestamp = now\<rparr>)
        | _ \<Rightarrow> cache w)"
  "filter isFetchCalled (events (resumeOriginator hid key outcome now w))
     = filter isFetchCalled (events w)"
  by (cases outcome; simp add: resumeOriginator_def Let_def showOptions_sel showOptions_def)+

lemma resumeOriginator_hook:
  "config (hooks (resumeOriginator hid key outcome now w) j) = config (hooks w j)"
  "sourceKey (hooks (resumeOriginator hid key outcome now w) j) = sourceKey (hooks w j)"
  "dependenciesKey (hooks (resumeOriginator hid key outcome now w) j) = dependenciesKey (hooks w j)"
  "enabled (hooks (resumeOriginator hid key outcome now w) j) = enabled (hooks w j)"
  "isMounted (hooks (resumeOriginator hid key outcome now w) j) = isMounted (hooks w j)"
  "abortController (hooks (resumeOriginator hid key outcome now w) j) = abortController (hooks w j)"
  "debounceTimer (hooks (resumeOriginator hid key outcome now w) j) = debounceTimer (hooks w j)"
  "lastFetchKey (hooks (resumeOriginator hid key outcome now w) j)
     = (if j = hid \<and> lastFetchKey (hooks w hid) = Some key then None else lastFetchKey (hooks w j))"
  "options (hooks (resumeOriginator hid key outcome now w) j)
     = (case outcome of
          Resolved os \<Rightarrow> if j = hid \<and> isMounted (hooks w hid) then os else options (hooks w j)
        | _ \<Rightarrow> options (hooks w j))"
  by (cases outcome; simp add: resumeOriginator_def Let_def showOptions_def)+

lemma resumeAttached_sel:
  "inFlightRequests (resumeAttached hid outcome w) = inFlightRequests w"
  "waiters (resumeAttached hid outcome w) = waiters w"
  "events (resumeAttached hid outcome w) = events w"
  "cache (resumeAttached hid outcome w) = cache w"
  "nextPromise (resumeAttached hid outcome w) = nextPromise w"
  by (cases outcome; simp add: resumeAttached_def showOptions_sel)+

lemma resumeAttached_hook:
  "options (hooks (resumeAttached hid outcome w) j)
     = (case outcome of
          Resolved os \<Rightarrow> if j = hid \<and> isMounted (hooks w hid) then os else options (hooks w j)
        | _ \<Rightarrow> options (hooks w j))"
  "isMounted (hooks (resumeAttached hid outcome w) j) = isMounted (hooks w j)"
  "lastFetchKey (hooks (resumeAttached hid outcome w) j) = lastFetchKey (hooks w j)"
  by (cases outcome; simp add: resumeAttached_def showOptions_hook)+

lemma fetchCalls_start:
  "fetchCalls (startFetch hid q w)
     = fetchCalls w @ [FetchCalled hid (paramsOf (hooks w hid) q) (nextPromise w)]"
  by (simp add: fetchCalls_def startFetch_sel)

lemma isFresh_later:
  "\<not> isFresh w h key t1 \<Longrightarrow> t1 \<le> t2 \<Longrightarrow> cache w' = cache w \<Longrightarrow> staleTimeOf h' = staleTimeOf h
   \<Longrightarrow> \<not> isFresh w' h' key t2"
  by (auto simp: isFresh_def split: option.splits)

text \<open>
  C1 (as amended). De-duplication of concurrent requests. Let a first resolution start a
  fetch for its key (no fresh cache entry, nothing in flight), and let a second resolution
  with the same source key, configuration and parameters, hence the same cache key, be
  issued before the first settles. Then \<^verbatim>\<open>config.fetch\<close> is called exactly once; the entry
  of the in-flight map is written in the same synchronous turn, right after that call; the
  second resolution starts nothing and is appended to the continuations of the first's
  pending promise; whatever the outcome (success, failure or abort), the entry is deleted
  when the promise settles and no further fetch is made; and on success both instances,
  when mounted, show the same resulting options.
\<close>

theorem inflight_dedup:
  fixes w :: world and a b :: nat and q :: "string option" and t1 t2 :: int
  defines "key \<equiv> cacheKeyOf (hooks w a) q"
    and "p \<equiv> nextPromise w"
    and "w1 \<equiv> fetchData a q t1 w"
  defines "w2 \<equiv> fetchData b q t2 w1"
  assumes en: "enabled (hooks w a)" "enabled (hooks w b)"
    and same: "config (hooks w b) = config (hooks w a)"
      "sourceKey (hooks w b) = sourceKey (hooks w a)"
      "dependenciesKey (hooks w b) = dependenciesKey (hooks w a)"
    and miss: "\<not> isFresh w (hooks w a) key t1" "inFlightRequests w key = None"
      "lastFetchKey (hooks w a) \<noteq> Some key"
    and time: "t1 \<le> t2"
  shows "events w1 = events w @ [FetchCalled a (paramsOf (hooks w a) q) p, InFlightSet key p]
       \<and> inFlightRequests w1 key = Some p
       \<and> events w2 = events w1
       \<and> waiters w2 p = [Originator a key, Attached b]
       \<and> (\<forall>outcome t3.
             inFlightRequests (settle p outcome t3 w2) key = None
             \<and> fetchCalls (settle p outcome t3 w2)
                 = fetchCalls w @ [FetchCalled a (paramsOf (hooks w a) q) p])
       \<and> (\<forall>os t3. isMounted (hooks w a) \<and> isMounted (hooks w b) \<longrightarrow>
             options (hooks (settle p (Resolved os) t3 w2) a) = os
             \<and> options (hooks (settle p (Resolved os) t3 w2) b) = os)"
proof -
  have w1: "w1 = startFetch a q w"
    unfolding w1_def using en(1) miss by (simp add: fetchData_start key_def)
  have ev1: "events w1 = events w @ [FetchCalled a (paramsOf (hooks w a) q) p, InFlightSet key p]"
    by (simp add: w1 startFetch_sel key_def p_def)
  have fl1: "inFlightRequests w1 key = Some p"
    by (simp add: w1 startFetch_sel key_def p_def)
  have kb: "cacheKeyOf (hooks w1 b) q = key" and sb: "staleTimeOf (hooks w1 b) = staleTimeOf (hooks w a)"
    using key_cong[of "hooks w1 b" "hooks w a" q] same
    by (simp_all add: w1 startFetch_hook key_def)
  have nf: "\<not> isFresh w1 (hooks w1 b) key t2"
  proof (rule isFresh_later[OF miss(1) time _ sb])
    show "cache w1 = cache w" by (simp add: w1 startFetch_sel)
  qed
  have w2: "w2 = w1\<lparr>waiters := (waiters w1)(p := waiters w1 p @ [Attached b])\<rparr>"
    unfolding w2_def using en(2) nf fl1 kb
    by (simp add: fetchData_attach w1 startFetch_hook)
  have wt1: "waiters w1 p = [Originator a key]"
    by (simp add: w1 startFetch_sel key_def p_def)
  have ev2: "events w2 = events w1" by (simp add: w2)
  have wt2: "waiters w2 p = [Originator a key, Attached b]" by (simp add: w2 wt1)
  have st: "\<And>outcome t3. settle p outcome t3 w2 =
      resumeAttached b outcome
        (resumeOriginator a key outcome t3 (w2\<lparr>waiters := (waiters w2)(p := [])\<rparr>))"
    by (simp add: settle_def wt2)
  have mnt: "\<And>j. isMounted (hooks w2 j) = isMounted (hooks w j)"
    by (simp add: w2 w1 startFetch_hook)
  have fc2: "fetchCalls w2 = fetchCalls w @ [FetchCalled a (paramsOf (hooks w a) q) p]"
    by (simp add: fetchCalls_def ev2 ev1)
  have part5: "\<forall>outcome t3.
             inFlightRequests (settle p outcome t3 w2) key = None
             \<and> fetchCalls (settle p outcome t3 w2)
                 = fetchCalls w @ [FetchCalled a (paramsOf (hooks w a) q) p]"
    using fc2 by (simp add: st resumeAttached_sel resumeOriginator_sel fetchCalls_def)
  have part6: "\<forall>os t3. isMounted (hooks w a) \<and> isMounted (hooks w b) \<longrightarrow>
             options (hooks (settle p (Resolved os) t3 w2) a) = os
             \<and> options (hooks (settle p (Resolved os) t3 w2) b) = os"
    using mnt by (simp add: st resumeAttached_hook resumeOriginator_hook)
  from ev1 fl1 ev2 wt2 part5 part6 show ?thesis by blast
qed

lemma citiesPage_sel:
  "hooks citiesPage j = freshHook ''cities'' ''''"
  "cache citiesPage = Map.empty"
  "inFlightRequests citiesPage = Map.empty"
  "nextPromise citiesPage = 0"
  "events citiesPage = []"
  "aborted citiesPage = {}"
  by (simp_all add: citiesPage_def emptyWorld_def)

lemma freshHook_sel:
  "enabled (freshHook sk d) = True"
  "isMounted (freshHook sk d) = True"
  "config (freshHook sk d) = defaultConfig"
  "sourceKey (freshHook sk d) = sk"
  "dependenciesKey (freshHook sk d) = d"
  "lastFetchKey (freshHook sk d) = None"
  "debounceTimer (freshHook sk d) = None"
  "abortController (freshHook sk d) = None"
  "options (freshHook sk d) = []"
  by (simp_all add: freshHook_def)

lemma freshHook_key:
  "cacheKeyOf (freshHook sk '''') q = sk @ ''::'' @ (case q of None \<Rightarrow> '''' | Some s \<Rightarrow> s)"
  "paramsOf (freshHook sk '''') q = \<lparr>dependencies = None, searchQuery = q\<rparr>"
  "staleTimeOf (freshHook sk d) = 30000"
  "debounceOf (freshHook sk d) = 300"
  by (simp_all add: cacheKeyOf_def paramsOf_def generateCacheKey_def freshHook_def
        defaultConfig_def staleTimeOf_def DEFAULT_STALE_TIME_def debounceOf_def
        DEFAULT_DEBOUNCE_MS_def)

theorem inflight_dedup_witness:
  "fetchCalls (settle 0 (Resolved parisOptions) 1500
                 (fetchData 1 None 1001 (fetchData 0 None 1000 citiesPage)))
     = [FetchCalled 0 \<lparr>dependencies = None, searchQuery = None\<rparr> 0]
   \<and> waiters (fetchData 1 None 1001 (fetchData 0 None 1000 citiesPage)) 0
       = [Originator 0 ''cities::'', Attached 1]
   \<and> inFlightRequests (settle 0 (Resolved parisOptions) 1500
                 (fetchData 1 None 1001 (fetchData 0 None 1000 citiesPage))) ''cities::'' = None
   \<and> inFlightRequests (settle 0 AbortError 1500
                 (fetchData 1 None 1001 (fetchData 0 None 1000 citiesPage))) ''cities::'' = None
   \<and> options (hooks (settle 0 (Resolved parisOptions) 1500
                 (fetchData 1 None 1001 (fetchData 0 None 1000 citiesPage))) 0) = parisOptions
   \<and> options (hooks (settle 0 (Resolved parisOptions) 1500
                 (fetchData 1 None 1001 (fetchData 0 None 1000 citiesPage))) 1) = parisOptions"
proof -
  have "events (fetchData 0 None 1000 citiesPage)
          = events citiesPage
            @ [FetchCalled 0 (paramsOf (hooks citiesPage 0) None) (nextPromise citiesPage),
               InFlightSet (cacheKeyOf (hooks citiesPage 0) None) (nextPromise citiesPage)]
       \<and> inFlightRequests (fetchData 0 None 1000 citiesPage) (cacheKeyOf (hooks citiesPage 0) None)
           = Some (nextPromise citiesPage)
       \<and> events (fetchData 1 None 1001 (fetchData 0 None 1000 citiesPage))
           = events (fetchData 0 None 1000 citiesPage)
       \<and> waiters (fetchData 1 None 1001 (fetchData 0 None 1000 citiesPage)) (nextPromise citiesPage)
           = [Originator 0 (cacheKeyOf (hooks citiesPage 0) None), Attached 1]
       \<and> (\<forall>outcome t3.
             inFlightRequests
               (settle (nextPromise citiesPage) outcome t3
                  (fetchData 1 None 1001 (fetchData 0 None 1000 citiesPage)))
               (cacheKeyOf (hooks citiesPage 0) None) = None
             \<and> fetchCalls
                 (settle (nextPromise citiesPage) outcome t3
                    (fetchData 1 None 1001 (fetchData 0 None 1000 citiesPage)))
                 = fetchCalls citiesPage
                   @ [FetchCalled 0 (paramsOf (hooks citiesPage 0) None) (nextPromise citiesPage)])
       \<and> (\<forall>os t3. isMounted (hooks citiesPage 0) \<and> isMounted (hooks citiesPage 1) \<longrightarrow>
             options (hooks (settle (nextPromise citiesPage) (Resolved os) t3
                        (fetchData 1 None 1001 (fetchData 0 None 1000 citiesPage))) 0) = os
             \<and> options (hooks (settle (nextPromise citiesPage) (Resolved os) t3
                        (fetchData 1 None 1001 (fetchData 0 None 1000 citiesPage))) 1) = os)"
    by (rule inflight_dedup)
       (simp_all add: citiesPage_sel freshHook_sel freshHook_key isFresh_def)
  then show ?thesis
    by (simp add: citiesPage_sel freshHook_sel freshHook_key fetchCalls_def)
qed

text \<open>
  C1 as stated has the in-flight entry inserted before the fetch starts. In the trace of
  the first resolution on a fresh page the call of \<^verbatim>\<open>config.fetch\<close> comes first and the
  insertion second: the promise that is stored is the one that call creates.
\<close>

theorem inflight_insert_order_counterexample:
  "events (fetchData 0 None 1000 citiesPage)
     = [FetchCalled 0 \<lparr>dependencies = None, searchQuery = None\<rparr> 0, InFlightSet ''cities::'' 0]"
  by (simp add: fetchData_def startFetch_def Let_def citiesPage_sel freshHook_sel freshHook_key)

lemma settle_originator:
  "waiters w p = [Originator hid key] \<Longrightarrow>
     settle p outcome now w
       = resumeOriginator hid key outcome now (w\<lparr>waiters := (waiters w)(p := [])\<rparr>)"
  by (simp add: settle_def)

lemma fetch_settle_state:
  fixes w :: world and hid :: nat and q :: "string option" and t0 t1 :: int and os :: fieldOptions
  defines "h \<equiv> hooks w hid"
  defines "key \<equiv> cacheKeyOf h q"
  defines "w2 \<equiv> settle (nextPromise w) (Resolved os) t1 (fetchData hid q t0 w)"
  assumes en: "enabled h"
    and miss: "\<not> isFresh w h key t0" "inFlightRequests w key = None" "lastFetchKey h \<noteq> Some key"
  shows "cache w2 key = Some \<lparr>data = os, timestamp = t1\<rparr>"
    and "inFlightRequests w2 key = None"
    and "lastFetchKey (hooks w2 hid) = None"
    and "enabled (hooks w2 hid)"
    and "cacheKeyOf (hooks w2 hid) q = key"
    and "paramsOf (hooks w2 hid) q = paramsOf h q"
    and "staleTimeOf (hooks w2 hid) = staleTimeOf h"
    and "nextPromise w2 = Suc (nextPromise w)"
    and "fetchCalls w2 = fetchCalls w @ [FetchCalled hid (paramsOf h q) (nextPromise w)]"
    and "isMounted h \<longrightarrow> options (hooks w2 hid) = os \<and> isLoading (hooks w2 hid) = False"
proof -
  have w1: "fetchData hid q t0 w = startFetch hid q w"
    using en miss by (simp add: fetchData_start h_def key_def)
  have wt: "waiters (startFetch hid q w) (nextPromise w) = [Originator hid key]"
    by (simp add: startFetch_sel h_def key_def)
  have w2: "w2 = resumeOriginator hid key (Resolved os) t1
      ((startFetch hid q w)\<lparr>waiters := (waiters (startFetch hid q w))(nextPromise w := [])\<rparr>)"
    unfolding w2_def w1 by (rule settle_originator[OF wt])
  show "cache w2 key = Some \<lparr>data = os, timestamp = t1\<rparr>"
    by (simp add: w2 resumeOriginator_sel)
  show "inFlightRequests w2 key = None"
    by (simp add: w2 resumeOriginator_sel)
  show "lastFetchKey (hooks w2 hid) = None"
    by (simp add: w2 resumeOriginator_hook startFetch_hook h_def key_def)
  show "enabled (hooks w2 hid)"
    using en by (simp add: w2 resumeOriginator_hook startFetch_hook h_def)
  have c: "config (hooks w2 hid) = config h" "sourceKey (hooks w2 hid) = sourceKey h"
    "dependenciesKey (hooks w2 hid) = dependenciesKey h"
    by (simp_all add: w2 resumeOriginator_hook startFetch_hook h_def)
  from key_cong[OF c]
  show "cacheKeyOf (hooks w2 hid) q = key" "paramsOf (hooks w2 hid) q = paramsOf h q"
    "staleTimeOf (hooks w2 hid) = staleTimeOf h"
    by (simp_all add: key_def)
  show "nextPromise w2 = Suc (nextPromise w)"
    by (simp add: w2 resumeOriginator_sel startFetch_sel)
  show "fetchCalls w2 = fetchCalls w @ [FetchCalled hid (paramsOf h q) (nextPromise w)]"
    by (simp add: w2 fetchCalls_def resumeOriginator_sel startFetch_sel h_def)
  show "isMounted h \<longrightarrow> options (hooks w2 hid) = os \<and> isLoading (hooks w2 hid) = False"
    by (simp add: w2 resumeOriginator_def showOptions_def Let_def startFetch_hook h_def)
qed

text \<open>
  C2 (as amended). Cache freshness. An entry is fresh while \<open>now - timestamp < staleTime\<close>
  (30000 ms when the configuration gives none): a resolution that finds a fresh entry for
  its key shows the cached data with \<open>isLoading = False\<close> and calls no fetch; once
  \<open>now - timestamp \<ge> staleTime\<close>, and with nothing in flight for the key, it calls the
  fetch. The timestamp is the time at which the fetch settled. So after a first resolution
  whose fetch settled at \<open>tSettled\<close>, a second resolution with the same parameters less than
  \<open>staleTime\<close> after \<open>tSettled\<close> leaves the number of fetch calls at one, and a third at
  \<open>staleTime\<close> or more after \<open>tSettled\<close> makes the second call.
\<close>

theorem cache_freshness:
  fixes w :: world and hid :: nat and q :: "string option" and tFirst tSettled tSecond tThird now :: int
    and os :: fieldOptions
  defines "h \<equiv> hooks w hid"
  defines "key \<equiv> cacheKeyOf h q"
  defines "w2 \<equiv> settle (nextPromise w) (Resolved os) tSettled (fetchData hid q tFirst w)"
  defines "w3 \<equiv> fetchData hid q tSecond w2"
  defines "w4 \<equiv> fetchData hid q tThird w3"
  shows
    "(enabled h \<and> cache w key = Some e \<and> now - timestamp e < staleTimeOf h \<longrightarrow>
        fetchData hid q now w = showOptions hid (data e) w
        \<and> events (fetchData hid q now w) = events w
        \<and> (isMounted h \<longrightarrow> options (hooks (fetchData hid q now w) hid) = data e
                           \<and> isLoading (hooks (fetchData hid q now w) hid) = False))
     \<and> (enabled h \<and> cache w key = Some e \<and> now - timestamp e \<ge> staleTimeOf h
          \<and> inFlightRequests w key = None \<and> lastFetchKey h \<noteq> Some key \<longrightarrow>
        fetchCalls (fetchData hid q now w)
          = fetchCalls w @ [FetchCalled hid (paramsOf h q) (nextPromise w)])
     \<and> (staleTime (config h) = None \<longrightarrow> staleTimeOf h = 30000)
     \<and> (enabled h \<and> \<not> isFresh w h key tFirst \<and> inFlightRequests w key = None
          \<and> lastFetchKey h \<noteq> Some key
          \<and> tSecond - tSettled < staleTimeOf h \<and> tThird - tSettled \<ge> staleTimeOf h \<longrightarrow>
        fetchCalls w3 = fetchCalls w @ [FetchCalled hid (paramsOf h q) (nextPromise w)]
        \<and> fetchCalls w4
            = fetchCalls w @ [FetchCalled hid (paramsOf h q) (nextPromise w),
                              FetchCalled hid (paramsOf h q) (Suc (nextPromise w))])"
proof (intro conjI impI)
  assume a: "enabled h \<and> cache w key = Some e \<and> now - timestamp e < staleTimeOf h"
  then show f: "fetchData hid q now w = showOptions hid (data e) w"
    by (simp add: fetchData_fresh h_def key_def)
  show "events (fetchData hid q now w) = events w"
    by (simp add: f showOptions_sel)
  assume "isMounted h"
  then show "options (hooks (fetchData hid q now w) hid) = data e"
    and "isLoading (hooks (fetchData hid q now w) hid) = False"
    by (simp_all add: f showOptions_def Let_def h_def)
next
  assume a: "enabled h \<and> cache w key = Some e \<and> now - timestamp e \<ge> staleTimeOf h
          \<and> inFlightRequests w key = None \<and> lastFetchKey h \<noteq> Some key"
  then have "\<not> isFresh w h key now" by (simp add: isFresh_def)
  with a have "fetchData hid q now w = startFetch hid q w"
    by (simp add: fetchData_start h_def key_def)
  then show "fetchCalls (fetchData hid q now w)
          = fetchCalls w @ [FetchCalled hid (paramsOf h q) (nextPromise w)]"
    by (simp add: fetchCalls_start h_def)
next
  assume "staleTime (config h) = None"
  then show "staleTimeOf h = 30000"
    by (simp add: staleTimeOf_def DEFAULT_STALE_TIME_def)
next
  assume a: "enabled h \<and> \<not> isFresh w h key tFirst \<and> inFlightRequests w key = None
          \<and> lastFetchKey h \<noteq> Some key
          \<and> tSecond - tSettled < staleTimeOf h \<and> tThird - tSettled \<ge> staleTimeOf h"
  then have en: "enabled (hooks w hid)"
    and m1: "\<not> isFresh w (hooks w hid) (cacheKeyOf (hooks w hid) q) tFirst"
    and m2: "inFlightRequests w (cacheKeyOf (hooks w hid) q) = None"
    and m3: "lastFetchKey (hooks w hid) \<noteq> Some (cacheKeyOf (hooks w hid) q)"
    by (simp_all add: h_def key_def)
  note s = fetch_settle_state[OF en m1 m2 m3, of os tSettled, folded w2_def h_def key_def]
  have w3: "w3 = showOptions hid os w2"
    unfolding w3_def using s(1,4,5,7) a
    by (simp add: fetchData_fresh)
  show "fetchCalls w3 = fetchCalls w @ [FetchCalled hid (paramsOf h q) (nextPromise w)]"
    by (simp add: w3 fetchCalls_def showOptions_sel s(9)[unfolded fetchCalls_def])
  have c3: "config (hooks w3 hid) = config (hooks w2 hid)"
    "sourceKey (hooks w3 hid) = sourceKey (hooks w2 hid)"
    "dependenciesKey (hooks w3 hid) = dependenciesKey (hooks w2 hid)"
    by (simp_all add: w3 showOptions_hook)
  have k3: "cacheKeyOf (hooks w3 hid) q = key" "paramsOf (hooks w3 hid) q = paramsOf h q"
    "staleTimeOf (hooks w3 hid) = staleTimeOf h"
    using key_cong[OF c3, of q] s(5,6,7) by simp_all
  have "cache w3 key = Some \<lparr>data = os, timestamp = tSettled\<rparr>"
    using s(1) by (simp add: w3 showOptions_sel)
  then have "\<not> isFresh w3 (hooks w3 hid) key tThird"
    using a by (simp add: isFresh_def k3(3))
  then have nf: "\<not> isFresh w3 (hooks w3 hid) (cacheKeyOf (hooks w3 hid) q) tThird"
    by (simp add: k3(1))
  have "fetchData hid q tThird w3 = startFetch hid q w3"
  proof (rule fetchData_start[OF _ nf])
    show "enabled (hooks w3 hid)" using s(4) by (simp add: w3 showOptions_hook)
    have "inFlightRequests w3 key = None"
      using s(2) by (simp add: w3 showOptions_sel)
    then show "inFlightRequests w3 (cacheKeyOf (hooks w3 hid) q) = None"
      by (simp add: k3(1))
    show "lastFetchKey (hooks w3 hid) \<noteq> Some (cacheKeyOf (hooks w3 hid) q)"
      using s(3) by (simp add: w3 showOptions_hook)
  qed
  then have "fetchCalls w4
      = fetchCalls w3 @ [FetchCalled hid (paramsOf (hooks w3 hid) q) (nextPromise w3)]"
    by (simp add: w4_def fetchCalls_start)
  moreover have "nextPromise w3 = Suc (nextPromise w)"
    using s(8) by (simp add: w3 showOptions_sel)
  moreover have "fetchCalls w3 = fetchCalls w @ [FetchCalled hid (paramsOf h q) (nextPromise w)]"
    by (simp add: w3 fetchCalls_def showOptions_sel s(9)[unfolded fetchCalls_def])
  ultimately show "fetchCalls w4
            = fetchCalls w @ [FetchCalled hid (paramsOf h q) (nextPromise w),
                              FetchCalled hid (paramsOf h q) (Suc (nextPromise w))]"
    by (simp add: k3)
qed

lemma cachedPage_sel:
  "hooks cachedPage j = freshHook ''cities'' ''''"
  "cache cachedPage ''cities::'' = Some \<lparr>data = parisOptions, timestamp = 0\<rparr>"
  "inFlightRequests cachedPage = Map.empty"
  "nextPromise cachedPage = 0"
  "events cachedPage = []"
  by (simp_all add: cachedPage_def citiesPage_def emptyWorld_def)

theorem cache_freshness_witness:
  "options (hooks (fetchData 0 None 29999 cachedPage) 0) = parisOptions
   \<and> isLoading (hooks (fetchData 0 None 29999 cachedPage) 0) = False
   \<and> events (fetchData 0 None 29999 cachedPage) = []
   \<and> fetchCalls (fetchData 0 None 31499
          (settle 0 (Resolved parisOptions) 1500 (fetchData 0 None 1000 citiesPage)))
       = [FetchCalled 0 \<lparr>dependencies = None, searchQuery = None\<rparr> 0]
   \<and> fetchCalls (fetchData 0 None 31500 (fetchData 0 None 31499
          (settle 0 (Resolved parisOptions) 1500 (fetchData 0 None 1000 citiesPage))))
       = [FetchCalled 0 \<lparr>dependencies = None, searchQuery = None\<rparr> 0,
          FetchCalled 0 \<lparr>dependencies = None, searchQuery = None\<rparr> 1]"
proof -
  have fresh: "enabled (hooks cachedPage 0)
      \<and> cache cachedPage (cacheKeyOf (hooks cachedPage 0) None)
          = Some \<lparr>data = parisOptions, timestamp = 0\<rparr>
      \<and> 29999 - timestamp \<lparr>data = parisOptions, timestamp = 0\<rparr> < staleTimeOf (hooks cachedPage 0)"
    by (simp add: cachedPage_sel freshHook_sel freshHook_key)
  have m: "isMounted (hooks cachedPage 0)"
    by (simp add: cachedPage_sel freshHook_sel)
  have "options (hooks (fetchData 0 None 29999 cachedPage) 0)
        = data \<lparr>data = parisOptions, timestamp = 0\<rparr>
      \<and> isLoading (hooks (fetchData 0 None 29999 cachedPage) 0) = False
      \<and> events (fetchData 0 None 29999 cachedPage) = events cachedPage"
    using cache_freshness[where w = cachedPage and hid = 0 and q = None and now = 29999
        and e = "\<lparr>data = parisOptions, timestamp = 0\<rparr>" and tFirst = 0 and tSettled = 0
        and tSecond = 0 and tThird = 0 and os = "[]"] fresh m
    by blast
  then have a: "options (hooks (fetchData 0 None 29999 cachedPage) 0) = parisOptions
      \<and> isLoading (hooks (fetchData 0 None 29999 cachedPage) 0) = False
      \<and> events (fetchData 0 None 29999 cachedPage) = []"
    by (simp add: cachedPage_sel)
  have cold: "enabled (hooks citiesPage 0)
      \<and> \<not> isFresh citiesPage (hooks citiesPage 0) (cacheKeyOf (hooks citiesPage 0) None) 1000
      \<and> inFlightRequests citiesPage (cacheKeyOf (hooks citiesPage 0) None) = None
      \<and> lastFetchKey (hooks citiesPage 0) \<noteq> Some (cacheKeyOf (hooks citiesPage 0) None)
      \<and> 31499 - 1500 < staleTimeOf (hooks citiesPage 0)
      \<and> 31500 - 1500 \<ge> staleTimeOf (hooks citiesPage 0)"
    by (simp add: citiesPage_sel freshHook_sel freshHook_key isFresh_def)
  have "fetchCalls (fetchData 0 None 31499
          (settle (nextPromise citiesPage) (Resolved parisOptions) 1500
             (fetchData 0 None 1000 citiesPage)))
       = fetchCalls citiesPage
         @ [FetchCalled 0 (paramsOf (hooks citiesPage 0) None) (nextPromise citiesPage)]
   \<and> fetchCalls (fetchData 0 None 31500 (fetchData 0 None 31499
          (settle (nextPromise citiesPage) (Resolved parisOptions) 1500
             (fetchData 0 None 1000 citiesPage))))
       = fetchCalls citiesPage
         @ [FetchCalled 0 (paramsOf (hooks citiesPage 0) None) (nextPromise citiesPage),
            FetchCalled 0 (paramsOf (hooks citiesPage 0) None) (Suc (nextPromise citiesPage))]"
    using cache_freshness[where w = citiesPage and hid = 0 and q = None and tFirst = 1000
        and tSettled = 1500 and tSecond = 31499 and tThird = 31500 and os = parisOptions and now = 0
        and e = "\<lparr>data = parisOptions, timestamp = 0\<rparr>"] cold
    by blast
  then have b: "fetchCalls (fetchData 0 None 31499
          (settle 0 (Resolved parisOptions) 1500 (fetchData 0 None 1000 citiesPage)))
       = [FetchCalled 0 \<lparr>dependencies = None, searchQuery = None\<rparr> 0]
   \<and> fetchCalls (fetchData 0 None 31500 (fetchData 0 None 31499
          (settle 0 (Resolved parisOptions) 1500 (fetchData 0 None 1000 citiesPage))))
       = [FetchCalled 0 \<lparr>dependencies = None, searchQuery = None\<rparr> 0,
          FetchCalled 0 \<lparr>dependencies = None, searchQuery = None\<rparr> 1]"
    by (simp add: citiesPage_sel freshHook_key fetchCalls_def)
  from a b show ?thesis by blast
qed

text \<open>
  C2 as stated counts an entry as fresh while \<open>now - timestamp \<le> staleTime\<close>. With the
  default stale time and an entry written at time 0, a resolution at time 30000 calls the
  fetch.
\<close>

theorem cache_boundary_counterexample:
  "staleTimeOf (hooks cachedPage 0) = 30000
   \<and> cache cachedPage (cacheKeyOf (hooks cachedPage 0) None)
       = Some \<lparr>data = parisOptions, timestamp = 0\<rparr>
   \<and> fetchCalls (fetchData 0 None 30000 cachedPage)
       = [FetchCalled 0 \<lparr>dependencies = None, searchQuery = None\<rparr> 0]"
  by (simp add: fetchData_def startFetch_def Let_def fetchCalls_def cachedPage_sel
        freshHook_sel freshHook_key)

lemma setDependencies_refetch:
  assumes "d \<noteq> dependenciesKey (hooks w hid)" "d \<noteq> prevDependenciesKey (hooks w hid)"
    "0 < dependsOnLength (hooks w hid)"
  shows "setDependencies hid d now w =
     fetchData hid None now
       (w\<lparr> aborted := (case abortController (hooks w hid) of
                          None \<Rightarrow> aborted w | Some c \<Rightarrow> insert c (aborted w)),
            hooks := (hooks w)
              (hid := (hooks w hid)\<lparr>debounceTimer := None, dependenciesKey := d, isMounted := True,
                                    prevDependenciesKey := d, lastFetchKey := None\<rparr>) \<rparr>)"
  using assms by (simp add: setDependencies_def effectCleanup_def runEffect_def Let_def)

lemma second_fetch_state:
  fixes wM :: world and hid :: nat and qb :: "string option" and tb :: int
  defines "keyB \<equiv> cacheKeyOf (hooks wM hid) qb"
  defines "wB \<equiv> fetchData hid qb tb wM"
  assumes en: "enabled (hooks wM hid)"
    and miss: "\<not> isFresh wM (hooks wM hid) keyB tb" "inFlightRequests wM keyB = None"
      "lastFetchKey (hooks wM hid) \<noteq> Some keyB"
    and first: "waiters wM pA = [Originator hid keyA]" "nextPromise wM = Suc pA"
    and ab: "pA \<in> aborted wM \<or> abortController (hooks wM hid) = Some pA"
  shows "waiters wB pA = [Originator hid keyA]"
    and "waiters wB (Suc pA) = [Originator hid keyB]"
    and "isMounted (hooks wB hid) = isMounted (hooks wM hid)"
    and "pA \<in> aborted wB"
    and "fetchCalls wB = fetchCalls wM @ [FetchCalled hid (paramsOf (hooks wM hid) qb) (Suc pA)]"
proof -
  have wB: "wB = startFetch hid qb wM"
    unfolding wB_def using en miss by (simp add: fetchData_start keyB_def)
  show "waiters wB pA = [Originator hid keyA]"
    by (simp add: wB startFetch_sel first)
  show "waiters wB (Suc pA) = [Originator hid keyB]"
    by (simp add: wB startFetch_sel first keyB_def)
  show "isMounted (hooks wB hid) = isMounted (hooks wM hid)"
    by (simp add: wB startFetch_hook)
  show "pA \<in> aborted wB"
    using ab by (auto simp: wB startFetch_sel split: option.splits)
  show "fetchCalls wB = fetchCalls wM @ [FetchCalled hid (paramsOf (hooks wM hid) qb) (Suc pA)]"
    by (simp add: wB fetchCalls_start first)
qed

lemma settle_keeps_other_waiters:
  "waiters w p = [Originator hid key] \<Longrightarrow> p' \<noteq> p \<Longrightarrow>
     waiters (settle p outcome now w) p' = waiters w p'"
  by (simp add: settle_originator resumeOriginator_sel)

lemma settle_originator_options:
  "waiters w p = [Originator hid key] \<Longrightarrow>
     options (hooks (settle p outcome now w) hid)
       = (case outcome of
            Resolved os \<Rightarrow> if isMounted (hooks w hid) then os else options (hooks w hid)
          | _ \<Rightarrow> options (hooks w hid))"
  by (cases outcome) (simp_all add: settle_originator resumeOriginator_hook)

lemma settle_originator_mounted:
  "waiters w p = [Originator hid key] \<Longrightarrow>
     isMounted (hooks (settle p outcome now w) j) = isMounted (hooks w j)"
  by (simp add: settle_originator resumeOriginator_hook)

lemma settle_orders:
  assumes s: "waiters wB pA = [Originator hid keyA]" "waiters wB (Suc pA) = [Originator hid keyB]"
    and m: "isMounted (hooks wB hid)"
  shows "\<forall>osB tc td.
           options (hooks (settle pA AbortError td (settle (Suc pA) (Resolved osB) tc wB)) hid) = osB"
    and "\<forall>osB tc td.
           options (hooks (settle (Suc pA) (Resolved osB) td (settle pA AbortError tc wB)) hid) = osB"
    and "\<forall>osA osB tc td.
           options (hooks (settle pA (Resolved osA) td (settle (Suc pA) (Resolved osB) tc wB)) hid)
             = osA"
proof -
  have ne: "pA \<noteq> Suc pA" "Suc pA \<noteq> pA" by simp_all
  show "\<forall>osB tc td.
      options (hooks (settle pA AbortError td (settle (Suc pA) (Resolved osB) tc wB)) hid) = osB"
  proof (intro allI)
    fix osB tc td
    let ?w = "settle (Suc pA) (Resolved osB) tc wB"
    have wa: "waiters ?w pA = [Originator hid keyA]"
      using settle_keeps_other_waiters[OF s(2) ne(1)] s(1) by simp
    have "options (hooks ?w hid) = osB"
      using m by (simp add: settle_originator_options[OF s(2)])
    then show "options (hooks (settle pA AbortError td ?w) hid) = osB"
      by (simp add: settle_originator_options[OF wa])
  qed
  show "\<forall>osB tc td.
      options (hooks (settle (Suc pA) (Resolved osB) td (settle pA AbortError tc wB)) hid) = osB"
  proof (intro allI)
    fix osB tc td
    let ?w = "settle pA AbortError tc wB"
    have wb: "waiters ?w (Suc pA) = [Originator hid keyB]"
      using settle_keeps_other_waiters[OF s(1) ne(2)] s(2) by simp
    have "isMounted (hooks ?w hid)"
      using m by (simp add: settle_originator_mounted[OF s(1)])
    then show "options (hooks (settle (Suc pA) (Resolved osB) td ?w) hid) = osB"
      by (simp add: settle_originator_options[OF wb])
  qed
  show "\<forall>osA osB tc td.
      options (hooks (settle pA (Resolved osA) td (settle (Suc pA) (Resolved osB) tc wB)) hid) = osA"
  proof (intro allI)
    fix osA osB tc td
    let ?w = "settle (Suc pA) (Resolved osB) tc wB"
    have wa: "waiters ?w pA = [Originator hid keyA]"
      using settle_keeps_other_waiters[OF s(2) ne(1)] s(1) by simp
    have "isMounted (hooks ?w hid)"
      using m by (simp add: settle_originator_mounted[OF s(2)])
    then show "options (hooks (settle pA (Resolved osA) td ?w) hid) = osA"
      by (simp add: settle_originator_options[OF wa])
  qed
qed

text \<open>
  C3 (as amended). Latest request wins when the fetch honours the abort signal. Let a
  mounted instance start fetch A and then, before A settles, start fetch B under another
  cache key: by a call of \<open>fetchData\<close> with another search query, or by a render with other
  values of its dependencies, whose effect calls \<open>fetchData\<close> without a query. Issuing B
  aborts the signal given to A. If A then rejects with an \<^verbatim>\<open>AbortError\<close>, in either order
  with B's result, the options of the instance are B's result. The hook keeps no request
  token: if the fetch ignores the signal and A resolves after B, A's result replaces B's.
\<close>

theorem latest_fetch_wins_on_abort:
  fixes w :: world and hid :: nat and qa qb :: "string option" and d :: string
    and ta tb :: int
  defines "hA \<equiv> hooks w hid"
  defines "hD \<equiv> hA\<lparr>dependenciesKey := d\<rparr>"
  defines "keyA \<equiv> cacheKeyOf hA qa" and "keyB \<equiv> cacheKeyOf hA qb"
    and "keyD \<equiv> cacheKeyOf hD None"
  defines "pA \<equiv> nextPromise w"
  defines "wB \<equiv> fetchData hid qb tb (fetchData hid qa ta w)"
  defines "wD \<equiv> setDependencies hid d tb (fetchData hid qa ta w)"
  assumes en: "enabled hA" and mounted: "isMounted hA"
    and missA: "\<not> isFresh w hA keyA ta" "inFlightRequests w keyA = None"
      "lastFetchKey hA \<noteq> Some keyA"
  shows "(keyB \<noteq> keyA \<and> \<not> isFresh w hA keyB tb \<and> inFlightRequests w keyB = None \<longrightarrow>
       pA \<in> aborted wB
       \<and> fetchCalls wB = fetchCalls w @ [FetchCalled hid (paramsOf hA qa) pA,
                                          FetchCalled hid (paramsOf hA qb) (Suc pA)]
       \<and> (\<forall>osB tc td.
             options (hooks (settle pA AbortError td (settle (Suc pA) (Resolved osB) tc wB)) hid) = osB)
       \<and> (\<forall>osB tc td.
             options (hooks (settle (Suc pA) (Resolved osB) td (settle pA AbortError tc wB)) hid) = osB)
       \<and> (\<forall>osA osB tc td.
             options (hooks (settle pA (Resolved osA) td (settle (Suc pA) (Resolved osB) tc wB)) hid)
               = osA))
     \<and> (d \<noteq> dependenciesKey hA \<and> d \<noteq> prevDependenciesKey hA \<and> 0 < dependsOnLength hA
        \<and> keyD \<noteq> keyA \<and> \<not> isFresh w hD keyD tb \<and> inFlightRequests w keyD = None \<longrightarrow>
       pA \<in> aborted wD
       \<and> fetchCalls wD = fetchCalls w @ [FetchCalled hid (paramsOf hA qa) pA,
                                          FetchCalled hid (paramsOf hD None) (Suc pA)]
       \<and> (\<forall>osB tc td.
             options (hooks (settle pA AbortError td (settle (Suc pA) (Resolved osB) tc wD)) hid) = osB)
       \<and> (\<forall>osB tc td.
             options (hooks (settle (Suc pA) (Resolved osB) td (settle pA AbortError tc wD)) hid) = osB)
       \<and> (\<forall>osA osB tc td.
             options (hooks (settle pA (Resolved osA) td (settle (Suc pA) (Resolved osB) tc wD)) hid)
               = osA))"
proof -
  let ?wA = "startFetch hid qa w"
  have wA: "fetchData hid qa ta w = ?wA"
    using en missA by (simp add: fetchData_start hA_def keyA_def)
  have fA: "fetchCalls ?wA = fetchCalls w @ [FetchCalled hid (paramsOf hA qa) pA]"
    by (simp add: fetchCalls_start hA_def pA_def)
  have first: "waiters ?wA pA = [Originator hid keyA]" "nextPromise ?wA = Suc pA"
    by (simp_all add: startFetch_sel pA_def hA_def keyA_def)
  have partB: "keyB \<noteq> keyA \<and> \<not> isFresh w hA keyB tb \<and> inFlightRequests w keyB = None \<longrightarrow>
       pA \<in> aborted wB
       \<and> fetchCalls wB = fetchCalls w @ [FetchCalled hid (paramsOf hA qa) pA,
                                          FetchCalled hid (paramsOf hA qb) (Suc pA)]
       \<and> (\<forall>osB tc td.
             options (hooks (settle pA AbortError td (settle (Suc pA) (Resolved osB) tc wB)) hid) = osB)
       \<and> (\<forall>osB tc td.
             options (hooks (settle (Suc pA) (Resolved osB) td (settle pA AbortError tc wB)) hid) = osB)
       \<and> (\<forall>osA osB tc td.
             options (hooks (settle pA (Resolved osA) td (settle (Suc pA) (Resolved osB) tc wB)) hid)
               = osA)"
  proof (intro impI conjI)
    assume b: "keyB \<noteq> keyA \<and> \<not> isFresh w hA keyB tb \<and> inFlightRequests w keyB = None"
    have c: "config (hooks ?wA hid) = config hA" "sourceKey (hooks ?wA hid) = sourceKey hA"
      "dependenciesKey (hooks ?wA hid) = dependenciesKey hA"
      by (simp_all add: startFetch_hook hA_def)
    have k: "cacheKeyOf (hooks ?wA hid) qb = keyB" "paramsOf (hooks ?wA hid) qb = paramsOf hA qb"
      "staleTimeOf (hooks ?wA hid) = staleTimeOf hA"
      using key_cong[OF c, of qb] by (simp_all add: keyB_def)
    have enB: "enabled (hooks ?wA hid)"
      using en by (simp add: startFetch_hook hA_def)
    have "\<not> isFresh ?wA (hooks ?wA hid) keyB tb"
    proof (rule isFresh_later[OF _ order_refl _ k(3)])
      show "\<not> isFresh w hA keyB tb" using b by simp
      show "cache ?wA = cache w" by (simp add: startFetch_sel)
    qed
    then have nf: "\<not> isFresh ?wA (hooks ?wA hid) (cacheKeyOf (hooks ?wA hid) qb) tb"
      by (simp add: k(1))
    have "inFlightRequests ?wA keyB = None"
      using b by (auto simp: startFetch_sel hA_def keyA_def)
    then have fl: "inFlightRequests ?wA (cacheKeyOf (hooks ?wA hid) qb) = None"
      by (simp add: k(1))
    have "lastFetchKey (hooks ?wA hid) \<noteq> Some keyB"
      using b by (auto simp: startFetch_hook hA_def keyA_def)
    then have lk: "lastFetchKey (hooks ?wA hid) \<noteq> Some (cacheKeyOf (hooks ?wA hid) qb)"
      by (simp add: k(1))
    have ab: "pA \<in> aborted ?wA \<or> abortController (hooks ?wA hid) = Some pA"
      by (simp add: startFetch_hook pA_def)
    note st = second_fetch_state[OF enB nf fl lk first ab, unfolded k]
    have s: "waiters wB pA = [Originator hid keyA]" "waiters wB (Suc pA) = [Originator hid keyB]"
      unfolding wB_def wA by (rule st)+
    have m: "isMounted (hooks wB hid)"
      unfolding wB_def wA using st(3) mounted by (simp add: startFetch_hook hA_def)
    show "pA \<in> aborted wB" unfolding wB_def wA by (rule st)
    show "fetchCalls wB = fetchCalls w @ [FetchCalled hid (paramsOf hA qa) pA,
                                          FetchCalled hid (paramsOf hA qb) (Suc pA)]"
      unfolding wB_def wA using st(5) fA by simp
    show "\<forall>osB tc td.
             options (hooks (settle pA AbortError td (settle (Suc pA) (Resolved osB) tc wB)) hid) = osB"
      by (rule settle_orders[OF s m])
    show "\<forall>osB tc td.
             options (hooks (settle (Suc pA) (Resolved osB) td (settle pA AbortError tc wB)) hid) = osB"
      by (rule settle_orders[OF s m])
    show "\<forall>osA osB tc td.
             options (hooks (settle pA (Resolved osA) td (settle (Suc pA) (Resolved osB) tc wB)) hid)
               = osA"
      by (rule settle_orders[OF s m])
  qed
  have partD: "d \<noteq> dependenciesKey hA \<and> d \<noteq> prevDependenciesKey hA \<and> 0 < dependsOnLength hA
        \<and> keyD \<noteq> keyA \<and> \<not> isFresh w hD keyD tb \<and> inFlightRequests w keyD = None \<longrightarrow>
       pA \<in> aborted wD
       \<and> fetchCalls wD = fetchCalls w @ [FetchCalled hid (paramsOf hA qa) pA,
                                          FetchCalled hid (paramsOf hD None) (Suc pA)]
       \<and> (\<forall>osB tc td.
             options (hooks (settle pA AbortError td (settle (Suc pA) (Resolved osB) tc wD)) hid) = osB)
       \<and> (\<forall>osB tc td.
             options (hooks (settle (Suc pA) (Resolved osB) td (settle pA AbortError tc wD)) hid) = osB)
       \<and> (\<forall>osA osB tc td.
             options (hooks (settle pA (Resolved osA) td (settle (Suc pA) (Resolved osB) tc wD)) hid)
               = osA)"
  proof (intro impI conjI)
    assume b: "d \<noteq> dependenciesKey hA \<and> d \<noteq> prevDependenciesKey hA \<and> 0 < dependsOnLength hA
        \<and> keyD \<noteq> keyA \<and> \<not> isFresh w hD keyD tb \<and> inFlightRequests w keyD = None"
    let ?wM = "?wA\<lparr> aborted := (case abortController (hooks ?wA hid) of
                          None \<Rightarrow> aborted ?wA | Some c \<Rightarrow> insert c (aborted ?wA)),
            hooks := (hooks ?wA)
              (hid := (hooks ?wA hid)\<lparr>debounceTimer := None, dependenciesKey := d, isMounted := True,
                                      prevDependenciesKey := d, lastFetchKey := None\<rparr>) \<rparr>"
    have pre: "d \<noteq> dependenciesKey (hooks ?wA hid)" "d \<noteq> prevDependenciesKey (hooks ?wA hid)"
      "0 < dependsOnLength (hooks ?wA hid)"
      using b by (simp_all add: startFetch_def Let_def hA_def)
    have wD: "wD = fetchData hid None tb ?wM"
      unfolding wD_def wA by (rule setDependencies_refetch[OF pre])
    have c: "config (hooks ?wM hid) = config hD" "sourceKey (hooks ?wM hid) = sourceKey hD"
      "dependenciesKey (hooks ?wM hid) = dependenciesKey hD"
      by (simp_all add: startFetch_hook hD_def hA_def)
    have k: "cacheKeyOf (hooks ?wM hid) None = keyD" "paramsOf (hooks ?wM hid) None = paramsOf hD None"
      "staleTimeOf (hooks ?wM hid) = staleTimeOf hD"
      using key_cong[OF c, of None] by (simp_all add: keyD_def)
    have enB: "enabled (hooks ?wM hid)"
      using en by (simp add: startFetch_hook hA_def)
    have "\<not> isFresh ?wM (hooks ?wM hid) keyD tb"
    proof (rule isFresh_later[OF _ order_refl _ k(3)])
      show "\<not> isFresh w hD keyD tb" using b by simp
      show "cache ?wM = cache w" by (simp add: startFetch_sel)
    qed
    then have nf: "\<not> isFresh ?wM (hooks ?wM hid) (cacheKeyOf (hooks ?wM hid) None) tb"
      unfolding k(1) .
    have "inFlightRequests ?wM keyD = None"
      using b by (auto simp: startFetch_sel hA_def keyA_def)
    then have fl: "inFlightRequests ?wM (cacheKeyOf (hooks ?wM hid) None) = None"
      unfolding k(1) .
    have "lastFetchKey (hooks ?wM hid) \<noteq> Some keyD" by simp
    then have lk: "lastFetchKey (hooks ?wM hid) \<noteq> Some (cacheKeyOf (hooks ?wM hid) None)"
      unfolding k(1) .
    have firstM: "waiters ?wM pA = [Originator hid keyA]" "nextPromise ?wM = Suc pA"
      using first by simp_all
    have ab: "pA \<in> aborted ?wM \<or> abortController (hooks ?wM hid) = Some pA"
      by (simp add: startFetch_hook pA_def)
    note st = second_fetch_state[OF enB nf fl lk firstM ab, unfolded k]
    have s: "waiters wD pA = [Originator hid keyA]" "waiters wD (Suc pA) = [Originator hid keyD]"
      unfolding wD by (rule st)+
    have m: "isMounted (hooks wD hid)"
      unfolding wD using st(3) by simp
    have fM: "fetchCalls ?wM = fetchCalls ?wA" by (simp add: fetchCalls_def)
    show "pA \<in> aborted wD" unfolding wD by (rule st)
    show "fetchCalls wD = fetchCalls w @ [FetchCalled hid (paramsOf hA qa) pA,
                                          FetchCalled hid (paramsOf hD None) (Suc pA)]"
      unfolding wD using st(5) fA fM by simp
    show "\<forall>osB tc td.
             options (hooks (settle pA AbortError td (settle (Suc pA) (Resolved osB) tc wD)) hid) = osB"
      by (rule settle_orders[OF s m])
    show "\<forall>osB tc td.
             options (hooks (settle (Suc pA) (Resolved osB) td (settle pA AbortError tc wD)) hid) = osB"
      by (rule settle_orders[OF s m])
    show "\<forall>osA osB tc td.
             options (hooks (settle pA (Resolved osA) td (settle (Suc pA) (Resolved osB) tc wD)) hid)
               = osA"
      by (rule settle_orders[OF s m])
  qed
  show ?thesis by (rule conjI[OF partB partD])
qed


lemma regionsPage_sel:
  "hooks regionsPage j = freshHook ''regions'' ''{\"country\":\"fr\"}''"
  "cache regionsPage = Map.empty"
  "inFlightRequests regionsPage = Map.empty"
  "nextPromise regionsPage = 0"
  "events regionsPage = []"
  "aborted regionsPage = {}"
  by (simp_all add: regionsPage_def emptyWorld_def)

theorem latest_fetch_wins_on_abort_witness:
  "0 \<in> aborted (fetchData 0 (Some ''ab'') 1100 (fetchData 0 (Some ''a'') 1000 regionsPage))
   \<and> options (hooks
        (settle 0 AbortError 1600
           (settle 1 (Resolved romeOptions) 1500
              (fetchData 0 (Some ''ab'') 1100 (fetchData 0 (Some ''a'') 1000 regionsPage)))) 0)
       = romeOptions
   \<and> 0 \<in> aborted (setDependencies 0 ''{\"country\":\"it\"}'' 1100
                     (fetchData 0 (Some ''a'') 1000 regionsPage))
   \<and> options (hooks
        (settle 0 AbortError 1600
           (settle 1 (Resolved romeOptions) 1500
              (setDependencies 0 ''{\"country\":\"it\"}'' 1100
                 (fetchData 0 (Some ''a'') 1000 regionsPage)))) 0)
       = romeOptions"
proof -
  let ?h = "hooks regionsPage 0"
  let ?d = "''{\"country\":\"it\"}''"
  have pre: "enabled ?h" "isMounted ?h"
    "\<not> isFresh regionsPage ?h (cacheKeyOf ?h (Some ''a'')) 1000"
    "inFlightRequests regionsPage (cacheKeyOf ?h (Some ''a'')) = None"
    "lastFetchKey ?h \<noteq> Some (cacheKeyOf ?h (Some ''a''))"
    by (simp_all add: regionsPage_sel freshHook_sel isFresh_def)
  have hb: "cacheKeyOf ?h (Some ''ab'') \<noteq> cacheKeyOf ?h (Some ''a'')
      \<and> \<not> isFresh regionsPage ?h (cacheKeyOf ?h (Some ''ab'')) 1100
      \<and> inFlightRequests regionsPage (cacheKeyOf ?h (Some ''ab'')) = None"
    by (simp add: regionsPage_sel freshHook_def isFresh_def cacheKeyOf_def
          generateCacheKey_def paramsOf_def defaultConfig_def)
  have hd: "?d \<noteq> dependenciesKey ?h \<and> ?d \<noteq> prevDependenciesKey ?h \<and> 0 < dependsOnLength ?h
      \<and> cacheKeyOf (?h\<lparr>dependenciesKey := ?d\<rparr>) None \<noteq> cacheKeyOf ?h (Some ''a'')
      \<and> \<not> isFresh regionsPage (?h\<lparr>dependenciesKey := ?d\<rparr>)
             (cacheKeyOf (?h\<lparr>dependenciesKey := ?d\<rparr>) None) 1100
      \<and> inFlightRequests regionsPage (cacheKeyOf (?h\<lparr>dependenciesKey := ?d\<rparr>) None) = None"
    by (simp add: regionsPage_sel freshHook_def isFresh_def cacheKeyOf_def
          generateCacheKey_def paramsOf_def defaultConfig_def)
  from latest_fetch_wins_on_abort[where w = regionsPage and hid = 0 and qa = "Some ''a''"
      and qb = "Some ''ab''" and d = ?d and ta = 1000 and tb = 1100, OF pre] hb hd
  have "nextPromise regionsPage
          \<in> aborted (fetchData 0 (Some ''ab'') 1100 (fetchData 0 (Some ''a'') 1000 regionsPage))
     \<and> options (hooks
        (settle (nextPromise regionsPage) AbortError 1600
           (settle (Suc (nextPromise regionsPage)) (Resolved romeOptions) 1500
              (fetchData 0 (Some ''ab'') 1100 (fetchData 0 (Some ''a'') 1000 regionsPage)))) 0)
       = romeOptions
     \<and> nextPromise regionsPage
          \<in> aborted (setDependencies 0 ?d 1100 (fetchData 0 (Some ''a'') 1000 regionsPage))
     \<and> options (hooks
        (settle (nextPromise regionsPage) AbortError 1600
           (settle (Suc (nextPromise regionsPage)) (Resolved romeOptions) 1500
              (setDependencies 0 ?d 1100 (fetchData 0 (Some ''a'') 1000 regionsPage)))) 0)
       = romeOptions"
    by blast
  then show ?thesis by (simp add: regionsPage_sel)
qed

text \<open>
  C3 as stated must hold even when the fetch does not honour the abort signal. On a fresh
  page the instance searches for \<open>a\<close> and then for \<open>ab\<close>; the second fetch resolves with
  the options of Rome, and then the first, not aborted by its fetch function, resolves with
  those of Paris: the instance ends with the result of the first request.
\<close>

theorem late_result_counterexample:
  "options (hooks
     (settle 0 (Resolved parisOptions) 1600
        (settle 1 (Resolved romeOptions) 1500
           (fetchData 0 (Some ''ab'') 1100 (fetchData 0 (Some ''a'') 1000 citiesPage)))) 0)
     = parisOptions
   \<and> parisOptions \<noteq> romeOptions"
proof -
  let ?wA = "fetchData 0 (Some ''a'') 1000 citiesPage"
  have wA: "?wA = startFetch 0 (Some ''a'') citiesPage"
    by (rule fetchData_start)
       (simp_all add: citiesPage_sel freshHook_sel freshHook_key isFresh_def)
  have kA: "cacheKeyOf (hooks ?wA 0) (Some ''ab'') = ''cities::ab''"
    using key_cong[of "hooks ?wA 0" "freshHook ''cities'' ''''" "Some ''ab''"]
    by (simp add: wA startFetch_hook citiesPage_sel freshHook_key)
  have sA: "staleTimeOf (hooks ?wA 0) = 30000"
    using key_cong[of "hooks ?wA 0" "freshHook ''cities'' ''''" "Some ''ab''"]
    by (simp add: wA startFetch_hook citiesPage_sel freshHook_key)
  let ?wB = "fetchData 0 (Some ''ab'') 1100 ?wA"
  have wB: "?wB = startFetch 0 (Some ''ab'') ?wA"
  proof (rule fetchData_start)
    show "enabled (hooks ?wA 0)"
      by (simp add: wA startFetch_hook citiesPage_sel freshHook_sel)
    show "\<not> isFresh ?wA (hooks ?wA 0) (cacheKeyOf (hooks ?wA 0) (Some ''ab'')) 1100"
      unfolding kA by (simp add: isFresh_def wA startFetch_sel citiesPage_sel)
    show "inFlightRequests ?wA (cacheKeyOf (hooks ?wA 0) (Some ''ab'')) = None"
      unfolding kA by (simp add: wA startFetch_sel citiesPage_sel freshHook_key)
    show "lastFetchKey (hooks ?wA 0) \<noteq> Some (cacheKeyOf (hooks ?wA 0) (Some ''ab''))"
      unfolding kA by (simp add: wA startFetch_hook citiesPage_sel freshHook_key)
  qed
  have nA: "nextPromise ?wA = 1"
    by (simp add: wA startFetch_sel citiesPage_sel)
  have w0: "waiters ?wB 0 = [Originator 0 ''cities::a'']"
    by (simp add: wB startFetch_sel[of 0 "Some ''ab''"] nA)
       (simp add: wA startFetch_sel citiesPage_sel freshHook_key)
  have w1: "waiters ?wB 1 = [Originator 0 ''cities::ab'']"
    by (simp add: wB startFetch_sel[of 0 "Some ''ab''"] nA kA)
  have m: "isMounted (hooks ?wB 0)"
    by (simp add: wB startFetch_hook[of 0 "Some ''ab''"])
       (simp add: wA startFetch_hook citiesPage_sel freshHook_sel)
  let ?w = "settle 1 (Resolved romeOptions) 1500 ?wB"
  have wa: "waiters ?w 0 = [Originator 0 ''cities::a'']"
    using settle_keeps_other_waiters[OF w1, of 0] w0 by simp
  have "isMounted (hooks ?w 0)"
    using m settle_originator_mounted[OF w1, of "Resolved romeOptions" 1500 0] by simp
  then have "options (hooks (settle 0 (Resolved parisOptions) 1600 ?w) 0) = parisOptions"
    using settle_originator_options[OF wa, of "Resolved parisOptions" 1600] by simp
  then show ?thesis by (simp add: parisOptions_def romeOptions_def)
qed

lemma timerFires_idle:
  "debounceTimer (hooks w hid) = None \<Longrightarrow> timerFires hid now w = w"
  by (simp add: timerFires_def)

lemma timerFires_not_due:
  "now < t + max 0 (debounceOf (hooks w hid)) \<Longrightarrow>
     timerFires hid now (onSearch hid q t w) = onSearch hid q t w"
  by (simp add: timerFires_def onSearch_def Let_def)

lemma onSearch_overwrites:
  "onSearch hid q' t' (onSearch hid q t w) = onSearch hid q' t' w"
  by (simp add: onSearch_def Let_def debounceOf_def)

lemma onSearch_sel:
  "events (onSearch hid q t w) = events w"
  "debounceTimer (hooks (onSearch hid q t w) hid) = Some (t + max 0 (debounceOf (hooks w hid)), q)"
  by (simp_all add: onSearch_def Let_def)

lemma timerFires_due:
  "t + max 0 (debounceOf (hooks w hid)) \<le> now \<Longrightarrow>
     timerFires hid now (onSearch hid q t w)
       = fetchData hid (Some q) now
           (w\<lparr>hooks := (hooks w)(hid := (hooks w hid)\<lparr>searchQueryRef := q, debounceTimer := None\<rparr>)\<rparr>)"
  by (simp add: timerFires_def onSearch_def Let_def)

lemma closeCalls_mono:
  "closeCalls ms calls \<Longrightarrow> ms \<le> ms' \<Longrightarrow> closeCalls ms' calls"
  by (induction ms calls rule: closeCalls.induct) auto

lemma searchBurst_pending:
  "closeCalls (max 0 (debounceOf (hooks w hid))) ((t, q) # calls) \<Longrightarrow>
     searchBurst hid calls (onSearch hid q t w)
       = onSearch hid (snd (last ((t, q) # calls))) (fst (last ((t, q) # calls))) w"
proof (induction calls arbitrary: t q)
  case Nil
  show ?case by simp
next
  case (Cons c calls)
  obtain t' q' where c: "c = (t', q')" by (cases c)
  from Cons.prems c have near: "t' < t + max 0 (debounceOf (hooks w hid))"
    and rest: "closeCalls (max 0 (debounceOf (hooks w hid))) ((t', q') # calls)"
    by simp_all
  have "searchBurst hid (c # calls) (onSearch hid q t w)
      = searchBurst hid calls (onSearch hid q' t' w)"
    by (simp add: c timerFires_not_due[OF near] onSearch_overwrites)
  also have "\<dots> = onSearch hid (snd (last ((t', q') # calls))) (fst (last ((t', q') # calls))) w"
    by (rule Cons.IH[OF rest])
  finally show ?case by (simp add: c)
qed

lemma fetchData_calls:
  "fetchCalls (fetchData hid q now w)
     = fetchCalls w
       @ (if enabled (hooks w hid)
             \<and> \<not> isFresh w (hooks w hid) (cacheKeyOf (hooks w hid) q) now
             \<and> inFlightRequests w (cacheKeyOf (hooks w hid) q) = None
             \<and> lastFetchKey (hooks w hid) \<noteq> Some (cacheKeyOf (hooks w hid) q)
          then [FetchCalled hid (paramsOf (hooks w hid) q) (nextPromise w)] else [])"
  by (auto simp: fetchData_def Let_def fetchCalls_def isFresh_def showOptions_sel startFetch_sel
        split: option.splits)

text \<open>
  C4 (as amended). Debounced search. Let \<open>onSearch\<close> be called on one instance, with no
  timer pending before, at times less than \<open>debounceMs\<close> apart (300 ms when the
  configuration gives none), and let the event loop run the timer once the delay after the
  last call has passed. During the burst nothing is fetched and every call replaces the
  pending timer of the one before; the whole run amounts to exactly one call of
  \<open>fetchData\<close>, with the last query. That resolution calls \<^verbatim>\<open>config.fetch\<close> once, with
  \<open>searchQuery\<close> the last query, when the instance is enabled and its key has no fresh
  cache entry, no request in flight and is not the last fetch key; otherwise it calls no
  fetch at all. No fetch is ever called for an intermediate query.
\<close>

theorem debounced_search:
  fixes w :: world and hid :: nat and calls :: "(int \<times> string) list" and tEnd :: int
  defines "h \<equiv> hooks w hid"
  defines "qn \<equiv> snd (last calls)"
  defines "final \<equiv> timerFires hid tEnd (searchBurst hid calls w)"
  assumes burst: "calls \<noteq> []" "closeCalls (debounceOf h) calls"
    and idle: "debounceTimer h = None"
    and quiet: "fst (last calls) + max 0 (debounceOf h) \<le> tEnd"
  shows "events (searchBurst hid calls w) = events w
     \<and> debounceTimer (hooks (searchBurst hid calls w) hid)
         = Some (fst (last calls) + max 0 (debounceOf h), qn)
     \<and> final = fetchData hid (Some qn) tEnd
                 (w\<lparr>hooks := (hooks w)(hid := h\<lparr>searchQueryRef := qn, debounceTimer := None\<rparr>)\<rparr>)
     \<and> fetchCalls final
         = fetchCalls w
           @ (if enabled h \<and> \<not> isFresh w h (cacheKeyOf h (Some qn)) tEnd
                 \<and> inFlightRequests w (cacheKeyOf h (Some qn)) = None
                 \<and> lastFetchKey h \<noteq> Some (cacheKeyOf h (Some qn))
              then [FetchCalled hid (paramsOf h (Some qn)) (nextPromise w)] else [])
     \<and> searchQuery (paramsOf h (Some qn)) = Some qn
     \<and> debounceOf h = (case debounceMs (config h) of None \<Rightarrow> 300 | Some ms \<Rightarrow> ms)"
proof -
  from burst(1) obtain t q rest where calls: "calls = (t, q) # rest"
    by (cases calls) auto
  have cl: "closeCalls (max 0 (debounceOf (hooks w hid))) ((t, q) # rest)"
    using closeCalls_mono[OF burst(2), of "max 0 (debounceOf h)"] by (simp add: calls h_def)
  have sb: "searchBurst hid calls w = onSearch hid qn (fst (last calls)) w"
    using searchBurst_pending[OF cl] idle
    by (simp add: calls qn_def timerFires_idle h_def)
  let ?h' = "h\<lparr>searchQueryRef := qn, debounceTimer := None\<rparr>"
  let ?w' = "w\<lparr>hooks := (hooks w)(hid := ?h')\<rparr>"
  have fin: "final = fetchData hid (Some qn) tEnd ?w'"
    unfolding final_def sb using quiet by (simp add: timerFires_due h_def)
  have kc: "cacheKeyOf ?h' (Some qn) = cacheKeyOf h (Some qn)"
    "paramsOf ?h' (Some qn) = paramsOf h (Some qn)"
    "staleTimeOf ?h' = staleTimeOf h"
    using key_cong[of ?h' h "Some qn"] by simp_all
  have fr: "\<And>k. isFresh ?w' ?h' k tEnd = isFresh w h k tEnd"
    using kc(3) by (simp add: isFresh_def split: option.splits)
  have p1: "events (searchBurst hid calls w) = events w"
    by (simp add: sb onSearch_sel)
  have p2: "debounceTimer (hooks (searchBurst hid calls w) hid)
         = Some (fst (last calls) + max 0 (debounceOf h), qn)"
    by (simp add: sb onSearch_sel h_def)
  have "fetchCalls final
      = fetchCalls ?w'
        @ (if enabled (hooks ?w' hid)
              \<and> \<not> isFresh ?w' (hooks ?w' hid) (cacheKeyOf (hooks ?w' hid) (Some qn)) tEnd
              \<and> inFlightRequests ?w' (cacheKeyOf (hooks ?w' hid) (Some qn)) = None
              \<and> lastFetchKey (hooks ?w' hid) \<noteq> Some (cacheKeyOf (hooks ?w' hid) (Some qn))
           then [FetchCalled hid (paramsOf (hooks ?w' hid) (Some qn)) (nextPromise ?w')] else [])"
    unfolding fin by (rule fetchData_calls)
  then have p4: "fetchCalls final
         = fetchCalls w
           @ (if enabled h \<and> \<not> isFresh w h (cacheKeyOf h (Some qn)) tEnd
                 \<and> inFlightRequests w (cacheKeyOf h (Some qn)) = None
                 \<and> lastFetchKey h \<noteq> Some (cacheKeyOf h (Some qn))
              then [FetchCalled hid (paramsOf h (Some qn)) (nextPromise w)] else [])"
    by (simp add: kc fr fetchCalls_def)
  have p5: "searchQuery (paramsOf h (Some qn)) = Some qn"
    by (simp add: paramsOf_def)
  have p6: "debounceOf h = (case debounceMs (config h) of None \<Rightarrow> 300 | Some ms \<Rightarrow> ms)"
    by (simp add: debounceOf_def DEFAULT_DEBOUNCE_MS_def split: option.splits)
  from p1 p2 fin p4 p5 p6 show ?thesis by (intro conjI)
qed

theorem debounced_search_witness:
  "events (searchBurst 0 [(0, ''a''), (100, ''ab''), (399, ''abc'')] citiesPage) = []
   \<and> fetchCalls (timerFires 0 699
        (searchBurst 0 [(0, ''a''), (100, ''ab''), (399, ''abc'')] citiesPage))
       = [FetchCalled 0 \<lparr>dependencies = None, searchQuery = Some ''abc''\<rparr> 0]"
proof -
  let ?calls = "[(0, ''a''), (100, ''ab''), (399, ''abc'')] :: (int \<times> string) list"
  let ?h = "hooks citiesPage 0"
  have pre: "?calls \<noteq> []" "closeCalls (debounceOf ?h) ?calls" "debounceTimer ?h = None"
    "fst (last ?calls) + max 0 (debounceOf ?h) \<le> 699"
    by (simp_all add: citiesPage_sel freshHook_sel freshHook_key)
  have cold: "enabled ?h \<and> \<not> isFresh citiesPage ?h (cacheKeyOf ?h (Some (snd (last ?calls)))) 699
          \<and> inFlightRequests citiesPage (cacheKeyOf ?h (Some (snd (last ?calls)))) = None
          \<and> lastFetchKey ?h \<noteq> Some (cacheKeyOf ?h (Some (snd (last ?calls))))"
    by (simp add: citiesPage_sel freshHook_sel isFresh_def)
  from debounced_search[OF pre]
  have "events (searchBurst 0 ?calls citiesPage) = events citiesPage"
    and "fetchCalls (timerFires 0 699 (searchBurst 0 ?calls citiesPage))
          = fetchCalls citiesPage
            @ (if enabled ?h \<and> \<not> isFresh citiesPage ?h (cacheKeyOf ?h (Some (snd (last ?calls)))) 699
                  \<and> inFlightRequests citiesPage (cacheKeyOf ?h (Some (snd (last ?calls)))) = None
                  \<and> lastFetchKey ?h \<noteq> Some (cacheKeyOf ?h (Some (snd (last ?calls))))
               then [FetchCalled 0 (paramsOf ?h (Some (snd (last ?calls)))) (nextPromise citiesPage)]
               else [])"
    by blast+
  with cold show ?thesis
    by (simp add: citiesPage_sel freshHook_key fetchCalls_def)
qed

text \<open>
  C4 as stated has exactly one fetch triggered by every such burst. On the page whose cache
  holds the options of the empty query, written at time 0, the user types \<open>a\<close> at time 1000
  and clears the input at time 1100; when the timer runs at time 1400 the resolution finds
  the fresh entry, shows its options and calls no fetch. On a fresh page whose instance is
  disabled, a search is followed by no fetch either.
\<close>

theorem debounced_search_cached_counterexample:
  "closeCalls (debounceOf (hooks cachedPage 0)) [(1000, ''a''), (1100, '''')]
   \<and> debounceTimer (hooks cachedPage 0) = None
   \<and> fetchCalls (timerFires 0 1400 (searchBurst 0 [(1000, ''a''), (1100, '''')] cachedPage)) = []
   \<and> options (hooks (timerFires 0 1400 (searchBurst 0 [(1000, ''a''), (1100, '''')] cachedPage)) 0)
       = parisOptions
   \<and> fetchCalls (timerFires 0 1400
        (searchBurst 0 [(1000, ''a'')] disabledPage)) = []"
  by (simp add: timerFires_def onSearch_def Let_def fetchData_def showOptions_def fetchCalls_def
        cachedPage_sel freshHook_sel freshHook_key freshHook_def cacheKeyOf_def
        generateCacheKey_def paramsOf_def defaultConfig_def staleTimeOf_def DEFAULT_STALE_TIME_def
        debounceOf_def DEFAULT_DEBOUNCE_MS_def emptyWorld_def disabledPage_def)

end
